theory Spec2Isabelle
  imports Complex_Main "HOL-Library.Word" "HOL-Library.Sublist" "HOL-Library.Char_ord"
    "HOL-Library.List_Lexorder"
begin

section \<open>Data model\<close>

text \<open>
  The service keeps three SQLite tables (\<^verbatim>\<open>db.py\<close>, \<^verbatim>\<open>init_db\<close>): \<^verbatim>\<open>users\<close>, \<^verbatim>\<open>events\<close> and
  \<^verbatim>\<open>auth_state\<close>. The database is the only mutable state of the program, so every
  operation of the model takes the database and returns it, updated where the source
  executes an \<^verbatim>\<open>INSERT\<close> or \<^verbatim>\<open>UPDATE\<close>. The clock (\<^verbatim>\<open>int(time.time())\<close>) is an explicit
  argument of each function that reads it. A finite \<^verbatim>\<open>float64\<close> value is the real number
  it denotes, and comparisons of such values are comparisons of reals; infinities and NaN
  are outside the model. Float64 arithmetic rounds, so it is not the arithmetic of
  \<^typ>\<open>real\<close>: every operation that rounds is a parameter (see \<open>numpy\<close> below), and nothing
  proved here depends on what it returns.
\<close>

type_synonym bytes = "8 word list"

text \<open>JSON values, as \<^verbatim>\<open>json.dumps\<close> receives them in event metadata and response bodies.\<close>

datatype json = JNull | JBool bool | JInt int | JReal real | JStr string
  | JList "json list" | JDict "(string \<times> json) list"

text \<open>
  The value of an \<^verbatim>\<open>auth_state\<close> row is the JSON text of a dictionary whose values are
  integers (the only writer is \<^verbatim>\<open>set_state\<close>, called from \<^verbatim>\<open>security.py\<close>). A dictionary is an
  association list; \<open>dict_get\<close> is Python's \<^verbatim>\<open>d.get(k, default)\<close>.
\<close>

type_synonym state_dict = "(string \<times> int) list"

definition dict_get :: "('k \<times> 'v) list \<Rightarrow> 'k \<Rightarrow> 'v \<Rightarrow> 'v" where
  "dict_get d k dflt = (case map_of d k of None \<Rightarrow> dflt | Some v \<Rightarrow> v)"

record user_row =
  username :: string
  embedding_json :: "real list"
  role :: string
  created_at :: int

record event_row =
  ts :: int
  event_type :: string
  ev_username :: "string option"
  ev_ip :: "string option"
  meta_json :: "(string \<times> json) list"

text \<open>
  The \<^verbatim>\<open>users\<close> table is the list of its rows in rowid order (the order of a
  \<^verbatim>\<open>SELECT\<close> without \<^verbatim>\<open>ORDER BY\<close> on a rowid table), the \<^verbatim>\<open>events\<close> table the list of its
  rows in insertion order, and \<^verbatim>\<open>auth_state\<close> a map from its primary key.
\<close>

record db =
  users :: "user_row list"
  events :: "event_row list"
  auth_state :: "string \<rightharpoonup> state_dict"

section \<open>db.py\<close>

text \<open>\<^verbatim>\<open>init_db\<close> on a new database file: the three tables, empty.\<close>

definition init_db :: db where
  "init_db = \<lparr>users = [], events = [], auth_state = Map.empty\<rparr>"

text \<open>\<^verbatim>\<open>get_state\<close> executes one \<^verbatim>\<open>SELECT\<close> and returns the default when there is no row.\<close>

definition get_state :: "db \<Rightarrow> string \<Rightarrow> state_dict \<Rightarrow> state_dict \<times> db" where
  "get_state d k dflt =
     (case auth_state d k of None \<Rightarrow> (dflt, d) | Some v \<Rightarrow> (v, d))"

text \<open>\<^verbatim>\<open>set_state\<close>: \<^verbatim>\<open>INSERT ... ON CONFLICT(key) DO UPDATE SET value_json = excluded.value_json\<close>.\<close>

definition set_state :: "db \<Rightarrow> string \<Rightarrow> state_dict \<Rightarrow> db" where
  "set_state d k v = d\<lparr>auth_state := (auth_state d)(k \<mapsto> v)\<rparr>"

definition log_event ::
  "db \<Rightarrow> int \<Rightarrow> string \<Rightarrow> string option \<Rightarrow> string option \<Rightarrow> (string \<times> json) list \<Rightarrow> db" where
  "log_event d now etype uname ip meta =
     d\<lparr>events := events d @
        [\<lparr>ts = now, event_type = etype, ev_username = uname, ev_ip = ip, meta_json = meta\<rparr>]\<rparr>"

text \<open>SQL's \<^verbatim>\<open>COALESCE(a, b)\<close>: the first argument unless it is \<^verbatim>\<open>NULL\<close>.\<close>

definition coalesce :: "'a option \<Rightarrow> 'a \<Rightarrow> 'a" where
  "coalesce a b = (case a of Some x \<Rightarrow> x | None \<Rightarrow> b)"

text \<open>
  \<^verbatim>\<open>upsert_user\<close>: a new username is inserted with the given role and the current time;
  on a conflict the row keeps its place, its \<^verbatim>\<open>created_at\<close> and (the column being
  \<^verbatim>\<open>NOT NULL\<close>) its role, and takes the new embedding.
\<close>

fun upsert_rows :: "user_row list \<Rightarrow> int \<Rightarrow> string \<Rightarrow> real list \<Rightarrow> string \<Rightarrow> user_row list" where
  "upsert_rows [] now u emb r =
     [\<lparr>username = u, embedding_json = emb, role = r, created_at = now\<rparr>]"
| "upsert_rows (x # xs) now u emb r =
     (if username x = u
      then x\<lparr>embedding_json := emb, role := coalesce (Some (role x)) r\<rparr> # xs
      else x # upsert_rows xs now u emb r)"

definition upsert_user :: "db \<Rightarrow> int \<Rightarrow> string \<Rightarrow> real list \<Rightarrow> string \<Rightarrow> db" where
  "upsert_user d now u emb r = d\<lparr>users := upsert_rows (users d) now u emb r\<rparr>"

text \<open>The dictionary \<^verbatim>\<open>get_user\<close> and \<^verbatim>\<open>list_users\<close> build from a row.\<close>

record user_dict =
  ud_username :: string
  ud_role :: string
  ud_embedding :: "real list"

definition row_dict :: "user_row \<Rightarrow> user_dict" where
  "row_dict x = \<lparr>ud_username = username x, ud_role = role x, ud_embedding = embedding_json x\<rparr>"

definition get_user :: "db \<Rightarrow> string \<Rightarrow> user_dict option \<times> db" where
  "get_user d u =
     (case find (\<lambda>x. username x = u) (users d) of
        None \<Rightarrow> (None, d)
      | Some x \<Rightarrow> (Some (row_dict x), d))"

definition set_user_role :: "db \<Rightarrow> string \<Rightarrow> string \<Rightarrow> bool \<times> db" where
  "set_user_role d u r =
     (let rows = map (\<lambda>x. if username x = u then x\<lparr>role := r\<rparr> else x) (users d)
      in (\<exists>x \<in> set (users d). username x = u, d\<lparr>users := rows\<rparr>))"

definition list_users :: "db \<Rightarrow> user_dict list \<times> db" where
  "list_users d = (map row_dict (users d), d)"

text \<open>\<^verbatim>\<open>list_events\<close>: \<^verbatim>\<open>ORDER BY ts DESC LIMIT ?\<close>; a negative limit is no limit in SQLite.\<close>

definition list_events :: "db \<Rightarrow> int \<Rightarrow> event_row list \<times> db" where
  "list_events d limit =
     (let rows = rev (sort_key ts (rev (events d)))
      in ((if limit < 0 then rows else take (nat limit) rows), d))"

section \<open>security.py\<close>

definition LOCKOUT_SECONDS :: int where "LOCKOUT_SECONDS = 60"
definition MAX_FAILS :: int where "MAX_FAILS = 5"

text \<open>
  \<^verbatim>\<open>_key\<close>: \<^verbatim>\<open>f"auth:{username or 'unknown'}:{ip}"\<close>; \<^verbatim>\<open>None\<close> and the empty string are both
  falsy.
\<close>

definition lockout_key :: "string option \<Rightarrow> string \<Rightarrow> string" where
  "lockout_key uname ip =
     ''auth:'' @ (case uname of None \<Rightarrow> ''unknown'' | Some u \<Rightarrow> if u = [] then ''unknown'' else u)
       @ '':'' @ ip"

definition default_state :: state_dict where
  "default_state = [(''fails'', 0), (''locked_until'', 0)]"

text \<open>\<^verbatim>\<open>check_lockout\<close> returns \<^verbatim>\<open>(locked, fails, seconds_remaining)\<close>.\<close>

definition check_lockout :: "db \<Rightarrow> int \<Rightarrow> string option \<Rightarrow> string \<Rightarrow> (bool \<times> int \<times> int) \<times> db" where
  "check_lockout d now uname ip =
     (let (state, d1) = get_state d (lockout_key uname ip) default_state;
          locked_until = dict_get state ''locked_until'' 0;
          fails = dict_get state ''fails'' 0
      in if locked_until > now then ((True, fails, locked_until - now), d1)
         else ((False, fails, 0), d1))"

text \<open>
  \<^verbatim>\<open>register_fail\<close> returns \<^verbatim>\<open>(fails, locked, locked_until)\<close>. It accesses the database
  twice, each time on a connection of its own: the \<^verbatim>\<open>SELECT\<close> of \<^verbatim>\<open>get_state\<close> (line 29) and
  the \<^verbatim>\<open>INSERT\<close> of \<^verbatim>\<open>set_state\<close> (line 40), with the clock read and the arithmetic in
  between. The two halves are named, so that the accesses of another call can be placed
  between them.
\<close>

definition register_fail_read :: "db \<Rightarrow> string option \<Rightarrow> string \<Rightarrow> state_dict \<times> db" where
  "register_fail_read d uname ip = get_state d (lockout_key uname ip) default_state"

definition register_fail_write ::
  "db \<Rightarrow> int \<Rightarrow> string option \<Rightarrow> string \<Rightarrow> state_dict \<Rightarrow> (int \<times> bool \<times> int) \<times> db" where
  "register_fail_write d1 now uname ip state =
     (let fails = dict_get state ''fails'' 0 + 1;
          locked_until0 = dict_get state ''locked_until'' 0;
          (locked, locked_until) =
             (if fails \<ge> MAX_FAILS then (True, now + LOCKOUT_SECONDS) else (False, locked_until0));
          d2 = set_state d1 (lockout_key uname ip)
                 [(''fails'', fails), (''locked_until'', locked_until)]
      in ((fails, locked, locked_until), d2))"

definition register_fail :: "db \<Rightarrow> int \<Rightarrow> string option \<Rightarrow> string \<Rightarrow> (int \<times> bool \<times> int) \<times> db" where
  "register_fail d now uname ip =
     (let (state, d1) = register_fail_read d uname ip
      in register_fail_write d1 now uname ip state)"

definition register_success :: "db \<Rightarrow> string option \<Rightarrow> string \<Rightarrow> db" where
  "register_success d uname ip =
     set_state d (lockout_key uname ip) [(''fails'', 0), (''locked_until'', 0)]"

text \<open>The lockout state stored for a key, as \<^verbatim>\<open>check_lockout\<close> and \<^verbatim>\<open>register_fail\<close> read it.\<close>

definition stored_fails :: "db \<Rightarrow> string option \<Rightarrow> string \<Rightarrow> int" where
  "stored_fails d uname ip =
     dict_get (fst (get_state d (lockout_key uname ip) default_state)) ''fails'' 0"

definition stored_locked_until :: "db \<Rightarrow> string option \<Rightarrow> string \<Rightarrow> int" where
  "stored_locked_until d uname ip =
     dict_get (fst (get_state d (lockout_key uname ip) default_state)) ''locked_until'' 0"

text \<open>Calls of \<^verbatim>\<open>register_fail\<close> on one key, one after the other, at the given clock readings.\<close>

fun register_fails :: "db \<Rightarrow> int list \<Rightarrow> string option \<Rightarrow> string \<Rightarrow> db" where
  "register_fails d [] uname ip = d"
| "register_fails d (t # tms) uname ip =
     register_fails (snd (register_fail d t uname ip)) tms uname ip"

subsection \<open>Overlapping calls of \<^verbatim>\<open>register_fail\<close>\<close>

text \<open>
  Each database access is atomic (SQLite serialises statements), a call is not: nothing in
  \<^verbatim>\<open>security.py\<close> or \<^verbatim>\<open>db.py\<close> holds a lock or a transaction across the read and the write.
  A call in progress is in one of three phases; a schedule names, step by step, the call
  that performs its next database access and the clock reading it sees.
\<close>

datatype phase = NotStarted | HasRead state_dict | Finished "int \<times> bool \<times> int"

fun step :: "string option \<Rightarrow> string \<Rightarrow> db \<times> phase list \<Rightarrow> nat \<times> int \<Rightarrow> db \<times> phase list" where
  "step uname ip (d, ps) (i, now) =
     (if i < length ps then
        (case ps ! i of
           NotStarted \<Rightarrow>
             (let (state, d1) = register_fail_read d uname ip in (d1, ps[i := HasRead state]))
         | HasRead state \<Rightarrow>
             (let (res, d2) = register_fail_write d now uname ip state in (d2, ps[i := Finished res]))
         | Finished res \<Rightarrow> (d, ps))
      else (d, ps))"

definition run_calls :: "string option \<Rightarrow> string \<Rightarrow> db \<Rightarrow> nat \<Rightarrow> (nat \<times> int) list \<Rightarrow> db \<times> phase list" where
  "run_calls uname ip d n sched = foldl (step uname ip) (d, replicate n NotStarted) sched"

text \<open>The schedule in which call \<open>k\<close>, \<open>k + 1\<close>, ... each read and write without interruption.\<close>

fun serial :: "nat \<Rightarrow> int list \<Rightarrow> (nat \<times> int) list" where
  "serial k [] = []"
| "serial k (t # tms) = (k, t) # (k, t) # serial (Suc k) tms"

definition is_finished :: "phase \<Rightarrow> bool" where
  "is_finished p = (case p of Finished _ \<Rightarrow> True | _ \<Rightarrow> False)"

section \<open>recognition.py\<close>

text \<open>
  OpenCV, \<^verbatim>\<open>face_recognition\<close> and numpy's number formatting are libraries outside the
  repository; the functions below take what they compute as parameters. \<open>'img\<close> is the type
  of a decoded image. \<open>laplacian_var\<close> is \<^verbatim>\<open>cv2.Laplacian(gray, cv2.CV_64F).var()\<close> and
  \<open>mean_gray\<close> is \<^verbatim>\<open>float(np.mean(gray))\<close> of the grey version of a colour image,
  \<open>face_encodings\<close> the encodings of the faces located in it, \<open>mean_absdiff\<close> is
  \<^verbatim>\<open>np.mean(cv2.absdiff(a, b))\<close> of two grey images resized to 256 by 256, and \<open>fmt1\<close> formats
  a float with \<^verbatim>\<open>:.1f\<close>.
\<close>

record 'img vision =
  imdecode_color :: "bytes \<Rightarrow> 'img option"
  imdecode_gray :: "bytes \<Rightarrow> 'img option"
  laplacian_var :: "'img \<Rightarrow> real"
  mean_gray :: "'img \<Rightarrow> real"
  face_encodings :: "'img \<Rightarrow> real list list"
  mean_absdiff :: "'img \<Rightarrow> 'img \<Rightarrow> real"
  fmt1 :: "real \<Rightarrow> string"

text \<open>
  Exceptions. \<open>ShapeMismatch\<close> is the \<^verbatim>\<open>ValueError\<close> of \<^verbatim>\<open>np.dot\<close> on one-dimensional arrays
  of different lengths.
\<close>

datatype detail = DStr string | DDict "(string \<times> json) list"

datatype exn = HTTPException nat detail | ValueError string
  | ShapeMismatch nat nat

record face_result =
  embedding :: "real list"
  face_count :: nat
  quality_ok :: bool
  quality_reason :: "string option"

definition decode_image_bytes :: "'img vision \<Rightarrow> bytes \<Rightarrow> exn + 'img" where
  "decode_image_bytes cv image_bytes =
     (case imdecode_color cv image_bytes of
        None \<Rightarrow> Inl (ValueError ''Invalid image bytes (decode failed).'')
      | Some bgr \<Rightarrow> Inr bgr)"

definition quality_gate :: "'img vision \<Rightarrow> 'img \<Rightarrow> bool \<times> string option" where
  "quality_gate cv bgr =
     (let blur_score = laplacian_var cv bgr in
      if blur_score < 45 then (False, Some (''image_too_blurry(blur='' @ fmt1 cv blur_score @ '')''))
      else
        (let brightness = mean_gray cv bgr in
         if brightness < 40
         then (False, Some (''image_too_dark(brightness='' @ fmt1 cv brightness @ '')''))
         else if brightness > 220
         then (False, Some (''image_too_bright(brightness='' @ fmt1 cv brightness @ '')''))
         else (True, None)))"

definition extract_embedding :: "'img vision \<Rightarrow> bytes \<Rightarrow> exn + face_result" where
  "extract_embedding cv image_bytes =
     (case decode_image_bytes cv image_bytes of
        Inl e \<Rightarrow> Inl e
      | Inr bgr \<Rightarrow>
          (let (ok, reason) = quality_gate cv bgr in
           if \<not> ok
           then Inr \<lparr>embedding = [], face_count = 0, quality_ok = False, quality_reason = reason\<rparr>
           else
             (let encodings = face_encodings cv bgr in
              if length encodings = 0
              then Inr \<lparr>embedding = [], face_count = 0, quality_ok = True, quality_reason = None\<rparr>
              else if length encodings \<noteq> 1
              then Inr \<lparr>embedding = [], face_count = length encodings, quality_ok = True,
                        quality_reason = None\<rparr>
              else Inr \<lparr>embedding = hd encodings, face_count = 1, quality_ok = True,
                        quality_reason = None\<rparr>)))"

text \<open>
  Float64 arithmetic. \<open>linalg_norm\<close> is \<^verbatim>\<open>np.linalg.norm\<close> of a one-dimensional array,
  \<open>np_dot\<close> is \<^verbatim>\<open>np.dot\<close> of two one-dimensional arrays of the same length, and \<open>fmul\<close>,
  \<open>fdiv\<close> and \<open>fsub\<close> are the float64 product, quotient (by a divisor that is not zero)
  and difference. What they return, rounding included, is the library's and the
  processor's business; the functions below fix only which of them are called, on what,
  and in which order.
\<close>

record numpy =
  linalg_norm :: "real list \<Rightarrow> real"
  np_dot :: "real list \<Rightarrow> real list \<Rightarrow> real"
  fmul :: "real \<Rightarrow> real \<Rightarrow> real"
  fdiv :: "real \<Rightarrow> real \<Rightarrow> real"
  fsub :: "real \<Rightarrow> real \<Rightarrow> real"

definition dot :: "numpy \<Rightarrow> real list \<Rightarrow> real list \<Rightarrow> exn + real" where
  "dot np a b =
     (if length a = length b then Inr (np_dot np a b)
      else Inl (ShapeMismatch (length a) (length b)))"

definition cosine_distance :: "numpy \<Rightarrow> real list \<Rightarrow> real list \<Rightarrow> exn + real" where
  "cosine_distance np a b =
     (let denom = fmul np (linalg_norm np a) (linalg_norm np b) in
      if denom = 0 then Inr 1
      else
        (case dot np a b of
           Inl e \<Rightarrow> Inl e
         | Inr p \<Rightarrow> Inr (fsub np 1 (fdiv np p denom))))"

definition motion_heuristic :: "'img vision \<Rightarrow> numpy \<Rightarrow> bytes \<Rightarrow> bytes \<Rightarrow> real" where
  "motion_heuristic cv np img1_bytes img2_bytes =
     (case (imdecode_gray cv img1_bytes, imdecode_gray cv img2_bytes) of
        (Some a, Some b) \<Rightarrow> fdiv np (mean_absdiff cv a b) 255
      | _ \<Rightarrow> 0)"

section \<open>auth.py\<close>

text \<open>
  The JWT library (\<^verbatim>\<open>jose.jwt\<close>) is outside the repository: \<open>jwt_encode\<close> takes the
  payload, the key and the algorithm; \<open>jwt_decode\<close> takes the clock reading it validates
  against, the token, the key and the accepted algorithms, and answers \<open>None\<close> where the
  library raises \<^verbatim>\<open>JWTError\<close>. \<open>SECRET_KEY\<close> and \<open>ACCESS_TOKEN_TTL_SECONDS\<close> are the module
  constants, read from the process environment at import (defaults
  \<^verbatim>\<open>"dev-insecure-secret-change-me"\<close> and 3600).
\<close>

record auth_env =
  jwt_encode :: "(string \<times> json) list \<Rightarrow> string \<Rightarrow> string \<Rightarrow> string"
  jwt_decode :: "int \<Rightarrow> string \<Rightarrow> string \<Rightarrow> string list \<Rightarrow> (string \<times> json) list option"
  SECRET_KEY :: string
  ACCESS_TOKEN_TTL_SECONDS :: int

definition ALGORITHM :: string where "ALGORITHM = ''HS256''"

definition create_access_token :: "auth_env \<Rightarrow> int \<Rightarrow> string \<Rightarrow> string \<Rightarrow> string" where
  "create_access_token au now uname r =
     jwt_encode au
       [(''sub'', JStr uname), (''role'', JStr r), (''iat'', JInt now),
        (''exp'', JInt (now + ACCESS_TOKEN_TTL_SECONDS au))]
       (SECRET_KEY au) ALGORITHM"

definition decode_token :: "auth_env \<Rightarrow> int \<Rightarrow> string \<Rightarrow> exn + (string \<times> json) list" where
  "decode_token au now token =
     (case jwt_decode au now token (SECRET_KEY au) [ALGORITHM] of
        Some payload \<Rightarrow> Inr payload
      | None \<Rightarrow> Inl (HTTPException 401 (DStr ''Invalid or expired token'')))"

section \<open>app.py\<close>

text \<open>
  The float64 values of the literals \<^verbatim>\<open>0.35\<close> and \<^verbatim>\<open>0.03\<close>: the multiples of
  \<open>1 / 2 ^ 53\<close> and of \<open>1 / 2 ^ 55\<close> nearest to them, both a little below the decimal.
\<close>

definition MATCH_THRESHOLD :: real where
  "MATCH_THRESHOLD = 3152519739159347 / 2 ^ 53"

definition MOTION_THRESHOLD :: real where
  "MOTION_THRESHOLD = 1080863910568919 / 2 ^ 55"

text \<open>Python's \<^verbatim>\<open>str\<close> of an integer, for the f-strings.\<close>

fun str_nat :: "nat \<Rightarrow> string" where
  "str_nat n =
     (if n < 10 then [''0123456789'' ! n]
      else str_nat (n div 10) @ [''0123456789'' ! (n mod 10)])"

declare str_nat.simps [simp del]

definition str_int :: "int \<Rightarrow> string" where
  "str_int i = (if i < 0 then CHR ''-'' # str_nat (nat (- i)) else str_nat (nat i))"

definition client_ip :: "string option \<Rightarrow> string" where
  "client_ip client = (case client of Some host \<Rightarrow> host | None \<Rightarrow> ''unknown'')"

definition json_opt :: "string option \<Rightarrow> json" where
  "json_opt x = (case x of None \<Rightarrow> JNull | Some s \<Rightarrow> JStr s)"

text \<open>
  The readings of the clock at the places where a request reads it: in \<^verbatim>\<open>check_lockout\<close>,
  in \<^verbatim>\<open>register_fail\<close>, in \<^verbatim>\<open>create_access_token\<close>, in \<^verbatim>\<open>upsert_user\<close> and in
  \<^verbatim>\<open>log_event\<close>. No path through a request reads it twice at one place.
\<close>

record clock =
  t_check :: int
  t_fail :: int
  t_token :: int
  t_upsert :: int
  t_event :: int

definition enroll ::
  "'img vision \<Rightarrow> db \<Rightarrow> clock \<Rightarrow> string option \<Rightarrow> string \<Rightarrow> bytes
     \<Rightarrow> (exn + (string \<times> json) list) \<times> db" where
  "enroll cv d clk client uname image_bytes =
     (let ip = client_ip client in
      case extract_embedding cv image_bytes of
        Inl e \<Rightarrow>
          (case e of
             ValueError msg \<Rightarrow>
               (Inl (HTTPException 400 (DStr msg)),
                log_event d (t_event clk) ''enroll_error'' (Some uname) (Some ip)
                  [(''error'', JStr msg)])
           | _ \<Rightarrow> (Inl e, d))
      | Inr res \<Rightarrow>
          if \<not> quality_ok res then
            (Inl (HTTPException 400
               (DDict [(''error'', JStr ''quality_gate''), (''detail'', json_opt (quality_reason res))])),
             log_event d (t_event clk) ''enroll_rejected'' (Some uname) (Some ip)
               [(''reason'', JStr ''quality_gate''), (''detail'', json_opt (quality_reason res))])
          else if face_count res \<noteq> 1 then
            (Inl (HTTPException 400
               (DStr (''Expected exactly 1 face, found '' @ str_nat (face_count res) @ ''.''))),
             log_event d (t_event clk) ''enroll_rejected'' (Some uname) (Some ip)
               [(''reason'', JStr ''invalid_face_count''),
                (''face_count'', JInt (int (face_count res)))])
          else
            (let d1 = upsert_user d (t_upsert clk) uname (embedding res) ''user'';
                 d2 = log_event d1 (t_event clk) ''enroll_success'' (Some uname) (Some ip)
                        [(''note'', JStr ''user embedding stored'')]
             in (Inr [(''ok'', JBool True), (''username'', JStr uname), (''role'', JStr ''user'')],
                 d2)))"

text \<open>
  \<^verbatim>\<open>verify\<close>, lines 116 to 145: the two distances against the enrolled vector, the motion
  score, the decision, and what follows from it.
\<close>

definition verify_decision ::
  "'img vision \<Rightarrow> numpy \<Rightarrow> auth_env \<Rightarrow> db \<Rightarrow> clock \<Rightarrow> string \<Rightarrow> string \<Rightarrow> bytes \<Rightarrow> bytes
     \<Rightarrow> real list \<Rightarrow> string \<Rightarrow> face_result \<Rightarrow> face_result
     \<Rightarrow> (exn + (string \<times> json) list) \<times> db" where
  "verify_decision cv np au d clk ip uname b1 b2 enrolled_vec urole r1 r2 =
     (case cosine_distance np (embedding r1) enrolled_vec of
        Inl e \<Rightarrow> (Inl e, d)
      | Inr d1 \<Rightarrow>
     (case cosine_distance np (embedding r2) enrolled_vec of
        Inl e \<Rightarrow> (Inl e, d)
      | Inr d2 \<Rightarrow>
          (let match1 = (d1 \<le> MATCH_THRESHOLD);
               match2 = (d2 \<le> MATCH_THRESHOLD);
               motion = motion_heuristic cv np b1 b2;
               liveness_pass = (motion \<ge> MOTION_THRESHOLD);
               authenticated = (match1 \<and> match2 \<and> liveness_pass);
               meta = [(''d1'', JReal d1), (''d2'', JReal d2),
                       (''match_threshold'', JReal MATCH_THRESHOLD),
                       (''motion'', JReal motion),
                       (''motion_threshold'', JReal MOTION_THRESHOLD),
                       (''liveness_pass'', JBool liveness_pass)]
           in if authenticated then
                (let da = register_success d (Some uname) ip;
                     token = create_access_token au (t_token clk) uname urole;
                     db' = log_event da (t_event clk) ''verify_success'' (Some uname) (Some ip) meta
                 in (Inr ([(''authenticated'', JBool True), (''token'', JStr token),
                           (''role'', JStr urole)] @ meta), db'))
              else
                (let ((f, locked_now, locked_until), df) =
                        register_fail d (t_fail clk) (Some uname) ip;
                     meta' = meta @ [(''fails'', JInt f), (''locked'', JBool locked_now),
                                     (''locked_until'',
                                      if locked_now then JInt locked_until else JNull)];
                     db' = log_event df (t_event clk) ''verify_failed'' (Some uname) (Some ip) meta'
                 in (Inl (HTTPException 401 (DDict ((''authenticated'', JBool False) # meta'))),
                     db')))))"

text \<open>\<^verbatim>\<open>verify\<close>, the \<^verbatim>\<open>except ValueError\<close> of lines 82 to 84.\<close>

definition verify_error ::
  "db \<Rightarrow> clock \<Rightarrow> string \<Rightarrow> string \<Rightarrow> exn \<Rightarrow> (exn + (string \<times> json) list) \<times> db" where
  "verify_error d clk ip uname e =
     (case e of
        ValueError msg \<Rightarrow>
          (Inl (HTTPException 400 (DStr msg)),
           log_event d (t_event clk) ''verify_error'' (Some uname) (Some ip) [(''error'', JStr msg)])
      | _ \<Rightarrow> (Inl e, d))"

definition verify ::
  "'img vision \<Rightarrow> numpy \<Rightarrow> auth_env \<Rightarrow> db \<Rightarrow> clock \<Rightarrow> string option \<Rightarrow> string \<Rightarrow> bytes \<Rightarrow> bytes
     \<Rightarrow> (exn + (string \<times> json) list) \<times> db" where
  "verify cv np au d clk client uname image1 image2 =
     (let ip = client_ip client;
          ((locked, fails, remaining), d1) = check_lockout d (t_check clk) (Some uname) ip
      in
      if locked then
        (Inl (HTTPException 429 (DStr (''Locked out. Try again in '' @ str_int remaining @ ''s.''))),
         log_event d1 (t_event clk) ''verify_locked'' (Some uname) (Some ip)
           [(''fails'', JInt fails), (''seconds_remaining'', JInt remaining)])
      else
        (case get_user d1 uname of
           (None, d2) \<Rightarrow>
             (Inl (HTTPException 404 (DStr ''Unknown user. Enroll first.'')),
              log_event d2 (t_event clk) ''verify_failed'' (Some uname) (Some ip)
                [(''reason'', JStr ''unknown_user'')])
         | (Some user_row, d2) \<Rightarrow>
             (let enrolled_vec = ud_embedding user_row;
                  urole = ud_role user_row
              in
              case extract_embedding cv image1 of
                Inl e \<Rightarrow> verify_error d2 clk ip uname e
              | Inr r1 \<Rightarrow>
              (case extract_embedding cv image2 of
                Inl e \<Rightarrow> verify_error d2 clk ip uname e
              | Inr r2 \<Rightarrow>
                  if \<not> quality_ok r1 \<or> \<not> quality_ok r2 then
                    (let ((f, locked_now, _), d3) = register_fail d2 (t_fail clk) (Some uname) ip
                     in (Inl (HTTPException 400
                           (DDict [(''error'', JStr ''quality_gate''),
                                   (''quality_1'', json_opt (quality_reason r1)),
                                   (''quality_2'', json_opt (quality_reason r2))])),
                         log_event d3 (t_event clk) ''verify_failed'' (Some uname) (Some ip)
                           [(''reason'', JStr ''quality_gate''),
                            (''quality_1'', json_opt (quality_reason r1)),
                            (''quality_2'', json_opt (quality_reason r2)),
                            (''fails'', JInt f), (''locked'', JBool locked_now)]))
                  else if face_count r1 \<noteq> 1 \<or> face_count r2 \<noteq> 1 then
                    (let ((f, locked_now, _), d3) = register_fail d2 (t_fail clk) (Some uname) ip
                     in (Inl (HTTPException 400
                           (DDict [(''error'', JStr ''invalid_face_count''),
                                   (''face_count_1'', JInt (int (face_count r1))),
                                   (''face_count_2'', JInt (int (face_count r2)))])),
                         log_event d3 (t_event clk) ''verify_failed'' (Some uname) (Some ip)
                           [(''reason'', JStr ''invalid_face_count''),
                            (''face_count_1'', JInt (int (face_count r1))),
                            (''face_count_2'', JInt (int (face_count r2))),
                            (''fails'', JInt f), (''locked'', JBool locked_now)]))
                  else verify_decision cv np au d2 clk ip uname image1 image2
                         enrolled_vec urole r1 r2))))"

text \<open>\<^verbatim>\<open>search\<close>: the candidates of lines 173 to 177, one per enrolled user, in listing order.\<close>

record candidate =
  c_username :: string
  c_role :: string
  c_distance :: real

fun candidates :: "numpy \<Rightarrow> real list \<Rightarrow> user_dict list \<Rightarrow> exn + candidate list" where
  "candidates np probe [] = Inr []"
| "candidates np probe (u # us) =
     (case cosine_distance np probe (ud_embedding u) of
        Inl e \<Rightarrow> Inl e
      | Inr dst \<Rightarrow>
          (case candidates np probe us of
             Inl e \<Rightarrow> Inl e
           | Inr cs \<Rightarrow>
               Inr (\<lparr>c_username = ud_username u, c_role = ud_role u, c_distance = dst\<rparr> # cs)))"

record search_response =
  results :: "candidate list"
  match_threshold :: real

text \<open>
  \<^verbatim>\<open>list.sort(key=...)\<close> is a stable sort, and so is \<^const>\<open>sort_key\<close>; a stable sort has one
  result. \<open>caller\<close> is the username that \<^verbatim>\<open>get_current_user\<close> resolved.
\<close>

definition search ::
  "'img vision \<Rightarrow> numpy \<Rightarrow> db \<Rightarrow> clock \<Rightarrow> string option \<Rightarrow> string \<Rightarrow> bytes \<Rightarrow> int
     \<Rightarrow> (exn + search_response) \<times> db" where
  "search cv np d clk client caller b top_k =
     (let ip = client_ip client in
      case extract_embedding cv b of
        Inl e \<Rightarrow>
          (case e of
             ValueError msg \<Rightarrow>
               (Inl (HTTPException 400 (DStr msg)),
                log_event d (t_event clk) ''search_error'' (Some caller) (Some ip)
                  [(''error'', JStr msg)])
           | _ \<Rightarrow> (Inl e, d))
      | Inr r \<Rightarrow>
          if \<not> quality_ok r then
            (Inl (HTTPException 400
               (DDict [(''error'', JStr ''quality_gate''), (''detail'', json_opt (quality_reason r))])),
             d)
          else if face_count r \<noteq> 1 then
            (Inl (HTTPException 400
               (DDict [(''error'', JStr ''invalid_face_count''),
                       (''face_count'', JInt (int (face_count r)))])),
             d)
          else
            (let (us, d1) = list_users d in
             case candidates np (embedding r) us of
               Inl e \<Rightarrow> (Inl e, d1)
             | Inr cands \<Rightarrow>
                 (let sorted_cands = sort_key c_distance cands;
                      res = take (nat (max 1 (min top_k 25))) sorted_cands;
                      d2 = log_event d1 (t_event clk) ''search_success'' (Some caller) (Some ip)
                             [(''top_k'', JInt top_k), (''returned'', JInt (int (length res)))]
                  in (Inr \<lparr>results = res, match_threshold = MATCH_THRESHOLD\<rparr>, d2))))"

text \<open>\<^verbatim>\<open>admin_events\<close>: the body of the handler, after the role check.\<close>

definition admin_events :: "db \<Rightarrow> int \<Rightarrow> event_row list \<times> db" where
  "admin_events d limit = list_events d limit"

section \<open>Example collaborators and databases\<close>

text \<open>
  A vision library for concrete evaluation: a byte string decodes (to itself) unless its
  first byte is 255 (the empty byte string is not used), every image is sharp and evenly
  lit, the first byte decides the faces found (\<open>0\<close>: one face with encoding \<open>[1, 0]\<close>;
  \<open>1\<close>: one face with encoding \<open>[0, 1]\<close>; otherwise two faces), and two different images
  differ by 255 grey levels everywhere.
\<close>

definition example_vision :: "bytes vision" where
  "example_vision =
     \<lparr>imdecode_color = (\<lambda>b. case b of [] \<Rightarrow> None | x # _ \<Rightarrow> if x = 255 then None else Some b),
      imdecode_gray = (\<lambda>b. case b of [] \<Rightarrow> None | x # _ \<Rightarrow> if x = 255 then None else Some b),
      laplacian_var = (\<lambda>_. 100),
      mean_gray = (\<lambda>_. 100),
      face_encodings =
        (\<lambda>img. case img of [] \<Rightarrow> []
           | x # _ \<Rightarrow> if x = 0 then [[1, 0]] else if x = 1 then [[0, 1]] else [[1, 0], [0, 1]]),
      mean_absdiff = (\<lambda>a b. if a = b then 0 else 255),
      fmt1 = (\<lambda>_. ''0.0'')\<rparr>"

text \<open>
  Arithmetic without rounding. The examples use vectors with components 0 and 1 and a
  motion score of 1, where no float64 operation rounds, so that float64 arithmetic
  returns the same values.
\<close>

definition exact_numpy :: numpy where
  "exact_numpy =
     \<lparr>linalg_norm = (\<lambda>a. sqrt (sum_list (map (\<lambda>x. x * x) a))),
      np_dot = (\<lambda>a b. sum_list (map2 (*) a b)),
      fmul = (*), fdiv = (/), fsub = (-)\<rparr>"

definition example_auth :: auth_env where
  "example_auth =
     \<lparr>jwt_encode = (\<lambda>payload k alg. ''token''),
      jwt_decode = (\<lambda>now token k algs. None),
      SECRET_KEY = ''dev-insecure-secret-change-me'',
      ACCESS_TOKEN_TTL_SECONDS = 3600\<rparr>"

definition example_clock :: clock where
  "example_clock = \<lparr>t_check = 100, t_fail = 100, t_token = 100, t_upsert = 100, t_event = 100\<rparr>"

text \<open>Alice enrolled with the embedding \<open>[1, 0]\<close>; then five failed attempts from one address.\<close>

definition alice_db :: db where
  "alice_db = upsert_user init_db 50 ''alice'' [1, 0] ''user''"

definition locked_db :: db where
  "locked_db = register_fails alice_db [101, 102, 103, 104, 105] (Some ''alice'') ''10.0.0.1''"

text \<open>Alice after an administrator made her an admin.\<close>

definition admin_db :: db where
  "admin_db = snd (set_user_role alice_db ''alice'' ''admin'')"

text \<open>Bob and Alice, enrolled in this order from the same photograph.\<close>

definition bob_alice_db :: db where
  "bob_alice_db =
     upsert_user (upsert_user init_db 50 ''bob'' [1, 0] ''user'') 60 ''alice'' [1, 0] ''user''"

text \<open>Ten enrolled users, named \<open>0\<close> to \<open>9\<close>.\<close>

definition ten_db :: db where
  "ten_db =
     \<lparr>users = map (\<lambda>i. \<lparr>username = str_nat i, embedding_json = [1, 0], role = ''user'',
                          created_at = 50\<rparr>) [0..<10],
      events = [], auth_state = Map.empty\<rparr>"

section \<open>The lockout state machine\<close>

lemma register_fail_result:
  "register_fail d now uname ip =
     ((stored_fails d uname ip + 1,
       stored_fails d uname ip + 1 \<ge> MAX_FAILS,
       (if stored_fails d uname ip + 1 \<ge> MAX_FAILS then now + LOCKOUT_SECONDS
        else stored_locked_until d uname ip)),
      set_state d (lockout_key uname ip)
        [(''fails'', stored_fails d uname ip + 1),
         (''locked_until'',
          (if stored_fails d uname ip + 1 \<ge> MAX_FAILS then now + LOCKOUT_SECONDS
           else stored_locked_until d uname ip))])"
  by (simp add: register_fail_def register_fail_read_def register_fail_write_def
        get_state_def stored_fails_def stored_locked_until_def Let_def split: option.splits)

lemma stored_after_set_state:
  "stored_fails (set_state d (lockout_key uname ip) [(''fails'', f), (''locked_until'', l)]) uname ip = f"
  "stored_locked_until (set_state d (lockout_key uname ip) [(''fails'', f), (''locked_until'', l)])
     uname ip = l"
  by (simp_all add: stored_fails_def stored_locked_until_def get_state_def set_state_def dict_get_def)

lemma check_lockout_stored:
  "check_lockout d now uname ip =
     ((stored_locked_until d uname ip > now, stored_fails d uname ip,
       (if stored_locked_until d uname ip > now then stored_locked_until d uname ip - now else 0)),
      d)"
  by (simp add: check_lockout_def get_state_def stored_fails_def stored_locked_until_def Let_def
        split: option.splits)

lemma stored_fresh:
  "auth_state d (lockout_key uname ip) = None \<Longrightarrow> stored_fails d uname ip = 0"
  "auth_state d (lockout_key uname ip) = None \<Longrightarrow> stored_locked_until d uname ip = 0"
  by (simp_all add: stored_fails_def stored_locked_until_def get_state_def dict_get_def
        default_state_def)

lemma stored_fails_register_fail:
  "stored_fails (snd (register_fail d now uname ip)) uname ip = stored_fails d uname ip + 1"
  by (simp add: register_fail_result stored_after_set_state)

lemma stored_locked_until_register_fail:
  "stored_locked_until (snd (register_fail d now uname ip)) uname ip =
     (if stored_fails d uname ip + 1 \<ge> MAX_FAILS then now + LOCKOUT_SECONDS
      else stored_locked_until d uname ip)"
  by (simp add: register_fail_result stored_after_set_state)

text \<open>
  Claim C1. \<^verbatim>\<open>register_fail\<close> returns and stores the stored fail count plus one. If the new
  count is at least \<open>MAX_FAILS\<close>, it reports the key locked and stores
  \<open>locked_until = now + 60\<close>, and a check at that moment finds the key locked with 60
  seconds remaining; otherwise it reports the key not locked and leaves \<open>locked_until\<close> as
  it was, so a key that a check found clear is still found clear. \<^verbatim>\<open>register_success\<close> stores
  \<open>fails = 0\<close> and \<open>locked_until = 0\<close> whatever was stored. On a key with no stored state,
  the fourth of five calls of \<^verbatim>\<open>register_fail\<close> returns \<open>(4, False, 0)\<close> and the fifth returns
  \<open>(5, True, t5 + 60)\<close>; a check at the
  time of that call finds the key locked with 60 seconds remaining, and a check at any time
  \<open>t\<close> before \<open>t5 + 60\<close> finds it locked with \<open>t5 + 60 - t\<close> remaining.
\<close>

theorem lockout_transitions:
  "(\<forall>f locked lu d'. register_fail d now uname ip = ((f, locked, lu), d') \<longrightarrow>
      f = stored_fails d uname ip + 1 \<and>
      stored_fails d' uname ip = stored_fails d uname ip + 1 \<and>
      (if f \<ge> MAX_FAILS
       then locked \<and> lu = now + LOCKOUT_SECONDS
            \<and> stored_locked_until d' uname ip = now + LOCKOUT_SECONDS
            \<and> fst (check_lockout d' now uname ip) = (True, f, LOCKOUT_SECONDS)
       else \<not> locked \<and> lu = stored_locked_until d uname ip
            \<and> stored_locked_until d' uname ip = stored_locked_until d uname ip
            \<and> (\<not> fst (fst (check_lockout d now uname ip)) \<longrightarrow>
                 fst (check_lockout d' now uname ip) = (False, f, 0))))
   \<and> stored_fails (register_success d uname ip) uname ip = 0
   \<and> stored_locked_until (register_success d uname ip) uname ip = 0
   \<and> (auth_state d (lockout_key uname ip) = None \<longrightarrow>
        (\<forall>t1 t2 t3 t4 t5.
           register_fail (register_fails d [t1, t2, t3] uname ip) t4 uname ip =
             ((4, False, 0), register_fails d [t1, t2, t3, t4] uname ip)
         \<and> register_fail (register_fails d [t1, t2, t3, t4] uname ip) t5 uname ip =
             ((5, True, t5 + 60), register_fails d [t1, t2, t3, t4, t5] uname ip)
         \<and> fst (check_lockout (register_fails d [t1, t2, t3, t4, t5] uname ip) t5 uname ip)
             = (True, 5, 60)
         \<and> (\<forall>t. t < t5 + 60 \<longrightarrow>
              fst (check_lockout (register_fails d [t1, t2, t3, t4, t5] uname ip) t uname ip)
                = (True, 5, t5 + 60 - t))))"
proof (intro conjI allI impI)
  fix f locked lu d'
  assume rf: "register_fail d now uname ip = ((f, locked, lu), d')"
  from rf show f: "f = stored_fails d uname ip + 1"
    by (simp add: register_fail_result)
  from rf have d': "d' = snd (register_fail d now uname ip)" by simp
  show "stored_fails d' uname ip = stored_fails d uname ip + 1"
    by (simp add: d' stored_fails_register_fail)
  show "if f \<ge> MAX_FAILS
       then locked \<and> lu = now + LOCKOUT_SECONDS
            \<and> stored_locked_until d' uname ip = now + LOCKOUT_SECONDS
            \<and> fst (check_lockout d' now uname ip) = (True, f, LOCKOUT_SECONDS)
       else \<not> locked \<and> lu = stored_locked_until d uname ip
            \<and> stored_locked_until d' uname ip = stored_locked_until d uname ip
            \<and> (\<not> fst (fst (check_lockout d now uname ip)) \<longrightarrow>
                 fst (check_lockout d' now uname ip) = (False, f, 0))"
    using rf
    by (auto simp add: check_lockout_stored register_fail_result stored_after_set_state
          LOCKOUT_SECONDS_def)
next
  show "stored_fails (register_success d uname ip) uname ip = 0"
    by (simp add: register_success_def stored_after_set_state)
  show "stored_locked_until (register_success d uname ip) uname ip = 0"
    by (simp add: register_success_def stored_after_set_state)
next
  fix t1 t2 t3 t4 t5 :: int
  assume fresh: "auth_state d (lockout_key uname ip) = None"
  have s3: "stored_fails (register_fails d [t1, t2, t3] uname ip) uname ip = 3"
    by (simp add: stored_fails_register_fail stored_fresh [OF fresh])
  have l3: "stored_locked_until (register_fails d [t1, t2, t3] uname ip) uname ip = 0"
    by (simp add: stored_locked_until_register_fail stored_fails_register_fail
          stored_fresh [OF fresh] MAX_FAILS_def)
  show "register_fail (register_fails d [t1, t2, t3] uname ip) t4 uname ip =
             ((4, False, 0), register_fails d [t1, t2, t3, t4] uname ip)"
    using s3 l3 by (simp add: register_fail_result MAX_FAILS_def)
  have s4: "stored_fails (register_fails d [t1, t2, t3, t4] uname ip) uname ip = 4"
    by (simp add: stored_fails_register_fail stored_fresh [OF fresh])
  show "register_fail (register_fails d [t1, t2, t3, t4] uname ip) t5 uname ip =
             ((5, True, t5 + 60), register_fails d [t1, t2, t3, t4, t5] uname ip)"
    using s4 by (simp add: register_fail_result MAX_FAILS_def LOCKOUT_SECONDS_def)
  have s5: "stored_fails (register_fails d [t1, t2, t3, t4, t5] uname ip) uname ip = 5"
    by (simp add: stored_fails_register_fail stored_fresh [OF fresh])
  have l5: "stored_locked_until (register_fails d [t1, t2, t3, t4, t5] uname ip) uname ip = t5 + 60"
    using s4 by (simp add: stored_locked_until_register_fail MAX_FAILS_def LOCKOUT_SECONDS_def)
  show "fst (check_lockout (register_fails d [t1, t2, t3, t4, t5] uname ip) t5 uname ip)
             = (True, 5, 60)"
    using s5 l5 by (simp add: check_lockout_stored)
  fix t :: int
  assume "t < t5 + 60"
  then show "fst (check_lockout (register_fails d [t1, t2, t3, t4, t5] uname ip) t uname ip)
                = (True, 5, t5 + 60 - t)"
    using s5 l5 by (simp add: check_lockout_stored)
qed

theorem lockout_transitions_witness:
  "register_fail init_db 100 (Some ''alice'') ''10.0.0.1'' =
     ((1, False, 0),
      set_state init_db (lockout_key (Some ''alice'') ''10.0.0.1'')
        [(''fails'', 1), (''locked_until'', 0)])
   \<and> \<not> fst (fst (check_lockout init_db 100 (Some ''alice'') ''10.0.0.1''))
   \<and> fst (check_lockout
            (set_state init_db (lockout_key (Some ''alice'') ''10.0.0.1'')
               [(''fails'', 1), (''locked_until'', 0)])
            100 (Some ''alice'') ''10.0.0.1'') = (False, 1, 0)
   \<and> auth_state init_db (lockout_key (Some ''alice'') ''10.0.0.1'') = None
   \<and> (130 :: int) < 105 + 60
   \<and> fst (check_lockout
            (register_fails init_db [101, 102, 103, 104, 105] (Some ''alice'') ''10.0.0.1'')
            130 (Some ''alice'') ''10.0.0.1'') = (True, 5, 35)"
proof -
  let ?u = "Some ''alice''" and ?ip = "''10.0.0.1''"
  have fresh: "auth_state init_db (lockout_key ?u ?ip) = None"
    by (simp add: init_db_def)
  have rf: "register_fail init_db 100 ?u ?ip =
     ((1, False, 0), set_state init_db (lockout_key ?u ?ip) [(''fails'', 1), (''locked_until'', 0)])"
    by (simp add: register_fail_result stored_fresh [OF fresh] MAX_FAILS_def)
  have clear: "\<not> fst (fst (check_lockout init_db 100 ?u ?ip))"
    by (simp add: check_lockout_stored stored_fresh [OF fresh])
  note inst = lockout_transitions [of init_db 100 ?u ?ip]
  from inst [THEN conjunct1, rule_format, OF rf] clear
  have a: "fst (check_lockout
            (set_state init_db (lockout_key ?u ?ip) [(''fails'', 1), (''locked_until'', 0)])
            100 ?u ?ip) = (False, 1, 0)"
    by (simp add: MAX_FAILS_def)
  from inst fresh
  have "\<forall>t. t < 105 + 60 \<longrightarrow>
          fst (check_lockout (register_fails init_db [101, 102, 103, 104, 105] ?u ?ip) t ?u ?ip)
            = (True, 5, 105 + 60 - t)"
    by blast
  then have b: "fst (check_lockout (register_fails init_db [101, 102, 103, 104, 105] ?u ?ip)
                  130 ?u ?ip) = (True, 5, 35)"
    by simp
  show ?thesis using rf clear a fresh b by simp
qed

section \<open>What each operation leaves unchanged\<close>

lemma log_event_frame:
  "auth_state (log_event d now et u ip m) = auth_state d"
  "users (log_event d now et u ip m) = users d"
  "events (log_event d now et u ip m) =
     events d @ [\<lparr>ts = now, event_type = et, ev_username = u, ev_ip = ip, meta_json = m\<rparr>]"
  by (simp_all add: log_event_def)

lemma set_state_frame:
  "users (set_state d k v) = users d"
  "events (set_state d k v) = events d"
  "auth_state (set_state d k v) = (auth_state d)(k \<mapsto> v)"
  by (simp_all add: set_state_def)

lemma get_user_cases:
  "get_user d u = (None, d) \<or> (\<exists>x. get_user d u = (Some x, d))"
  by (simp add: get_user_def split: option.splits)

lemma verify_frame_rule:
  assumes "P d"
    and "\<And>now et u ip m x. P x \<Longrightarrow> P (log_event x now et u ip m)"
    and "P (snd (register_fail d (t_fail clk) (Some uname) (client_ip client)))"
    and "P (register_success d (Some uname) (client_ip client))"
  shows "P (snd (verify cv np au d clk client uname b1 b2))"
proof (cases "stored_locked_until d (Some uname) (client_ip client) > t_check clk")
  case True
  then show ?thesis
    by (simp add: verify_def Let_def check_lockout_stored assms)
next
  case unlocked: False
  show ?thesis
  proof (cases "fst (get_user d uname)")
    case None
    then have "get_user d uname = (None, d)"
      using get_user_cases [of d uname] by auto
    then show ?thesis using unlocked
      by (simp add: verify_def Let_def check_lockout_stored assms)
  next
    case (Some x)
    then have gu: "get_user d uname = (Some x, d)"
      using get_user_cases [of d uname] by auto
    have err: "\<And>e. P (snd (verify_error d clk (client_ip client) uname e))"
      by (simp add: verify_error_def assms split: exn.splits)
    have dec: "\<And>r1 r2. P (snd (verify_decision cv np au d clk (client_ip client) uname b1 b2
                 (ud_embedding x) (ud_role x) r1 r2))"
      by (simp add: verify_decision_def Let_def split_def assms split: sum.splits)
    show ?thesis using unlocked
      by (simp add: verify_def Let_def split_def check_lockout_stored gu err dec assms
            split: sum.splits)
  qed
qed

lemma verify_users:
  "users (snd (verify cv np au d clk client uname b1 b2)) = users d"
  by (rule verify_frame_rule)
     (simp_all add: log_event_frame register_fail_result set_state_frame register_success_def)

lemma verify_auth_state:
  "auth_state (snd (verify cv np au d clk client uname b1 b2)) \<in>
     {auth_state d,
      auth_state (snd (register_fail d (t_fail clk) (Some uname) (client_ip client))),
      auth_state (register_success d (Some uname) (client_ip client))}"
  by (rule verify_frame_rule) (simp_all add: log_event_frame)

lemma enroll_auth_state:
  "auth_state (snd (enroll cv d clk client uname b)) = auth_state d"
  by (simp add: enroll_def Let_def log_event_frame upsert_user_def split: sum.splits exn.splits)

lemma search_frame:
  "auth_state (snd (search cv np d clk client caller b k)) = auth_state d"
  "users (snd (search cv np d clk client caller b k)) = users d"
  by (simp_all add: search_def Let_def log_event_frame list_users_def split: sum.splits exn.splits)

lemma stored_log_event:
  "stored_fails (log_event d now et u i m) uname ip = stored_fails d uname ip"
  "stored_locked_until (log_event d now et u i m) uname ip = stored_locked_until d uname ip"
  by (simp_all add: stored_fails_def stored_locked_until_def get_state_def log_event_def
        split: option.splits)

lemma stored_auth_state:
  "auth_state d = auth_state d' \<Longrightarrow> stored_fails d uname ip = stored_fails d' uname ip"
  "auth_state d = auth_state d' \<Longrightarrow> stored_locked_until d uname ip = stored_locked_until d' uname ip"
  by (simp_all add: stored_fails_def stored_locked_until_def get_state_def split: option.splits)

section \<open>Evaluation of the examples\<close>

lemma alice_fresh: "auth_state alice_db (lockout_key (Some ''alice'') ''10.0.0.1'') = None"
  by (simp add: alice_db_def upsert_user_def init_db_def)

lemma locked_db_stored:
  "stored_fails locked_db (Some ''alice'') ''10.0.0.1'' = 5"
  "stored_locked_until locked_db (Some ''alice'') ''10.0.0.1'' = 165"
  by (simp_all add: locked_db_def stored_fails_register_fail stored_locked_until_register_fail
        stored_fresh [OF alice_fresh] MAX_FAILS_def LOCKOUT_SECONDS_def)

lemma str_int_65: "str_int 65 = ''65''"
  by (simp add: str_int_def str_nat.simps)

lemma alice_row:
  "get_user alice_db ''alice'' =
     (Some \<lparr>ud_username = ''alice'', ud_role = ''user'', ud_embedding = [1, 0]\<rparr>, alice_db)"
  by (simp add: alice_db_def upsert_user_def init_db_def get_user_def row_dict_def)

lemma example_extract:
  "extract_embedding example_vision [0] =
     Inr \<lparr>embedding = [1, 0], face_count = 1, quality_ok = True, quality_reason = None\<rparr>"
  "extract_embedding example_vision [0, 7] =
     Inr \<lparr>embedding = [1, 0], face_count = 1, quality_ok = True, quality_reason = None\<rparr>"
  by (simp_all add: extract_embedding_def decode_image_bytes_def quality_gate_def
        example_vision_def)

lemma example_distance: "cosine_distance exact_numpy [1, 0] [1, 0] = Inr 0"
  by (simp add: cosine_distance_def dot_def exact_numpy_def)

lemma example_motion: "motion_heuristic example_vision exact_numpy [0] [0, 7] = 1"
  by (simp add: motion_heuristic_def example_vision_def exact_numpy_def)

text \<open>
  Claim C10. \<^verbatim>\<open>check_lockout\<close> returns the database it was given, and on a key with no
  \<^verbatim>\<open>auth_state\<close> row it leaves none. Of the other operations, the reads return the database
  unchanged, \<^verbatim>\<open>log_event\<close>, \<^verbatim>\<open>upsert_user\<close>, \<^verbatim>\<open>set_user_role\<close>, \<^verbatim>\<open>enroll\<close> and \<^verbatim>\<open>search\<close> leave the
  \<^verbatim>\<open>auth_state\<close> table as it was, and after \<^verbatim>\<open>verify\<close> the table is the one before the
  request, or the one \<^verbatim>\<open>register_fail\<close> leaves, or the one \<^verbatim>\<open>register_success\<close> leaves.
\<close>

theorem check_lockout_reads_only:
  "snd (check_lockout d now uname ip) = d
   \<and> (auth_state d (lockout_key uname ip) = None \<longrightarrow>
        auth_state (snd (check_lockout d now uname ip)) (lockout_key uname ip) = None)
   \<and> snd (get_state d k dflt) = d
   \<and> auth_state (log_event d now et eu eip m) = auth_state d
   \<and> auth_state (upsert_user d now un emb r) = auth_state d
   \<and> snd (get_user d un) = d
   \<and> auth_state (snd (set_user_role d un r)) = auth_state d
   \<and> snd (list_users d) = d
   \<and> snd (list_events d n) = d
   \<and> snd (admin_events d n) = d
   \<and> auth_state (snd (enroll cv d clk client un b)) = auth_state d
   \<and> auth_state (snd (search cv' np d clk client caller b top_k)) = auth_state d
   \<and> auth_state (snd (verify cv'' np au d clk client un b b')) \<in>
       {auth_state d,
        auth_state (snd (register_fail d (t_fail clk) (Some un) (client_ip client))),
        auth_state (register_success d (Some un) (client_ip client))}"
proof (intro conjI impI)
  show "auth_state (snd (verify cv'' np au d clk client un b b')) \<in>
       {auth_state d,
        auth_state (snd (register_fail d (t_fail clk) (Some un) (client_ip client))),
        auth_state (register_success d (Some un) (client_ip client))}"
    by (rule verify_auth_state)
  show "snd (get_user d un) = d"
    using get_user_cases [of d un] by auto
qed (simp_all add: check_lockout_stored get_state_def log_event_frame upsert_user_def
       set_user_role_def Let_def list_users_def list_events_def admin_events_def
       enroll_auth_state search_frame split: option.splits)

theorem check_lockout_reads_only_witness:
  "auth_state init_db (lockout_key (Some ''alice'') ''10.0.0.1'') = None
   \<and> auth_state (snd (check_lockout init_db 100 (Some ''alice'') ''10.0.0.1''))
        (lockout_key (Some ''alice'') ''10.0.0.1'') = None
   \<and> snd (check_lockout init_db 100 (Some ''alice'') ''10.0.0.1'') = init_db"
proof -
  have fresh: "auth_state init_db (lockout_key (Some ''alice'') ''10.0.0.1'') = None"
    by (simp add: init_db_def)
  note inst = check_lockout_reads_only [where d = init_db and now = 100
      and uname = "Some ''alice''" and ip = "''10.0.0.1''"]
  from inst [THEN conjunct2, THEN conjunct1, rule_format, OF fresh] inst [THEN conjunct1] fresh
  show ?thesis by simp
qed

section \<open>The verification pipeline\<close>

text \<open>
  Claim C4. When the stored \<open>locked_until\<close> of the request's key is later than the clock
  reading of the check, \<^verbatim>\<open>verify\<close> raises the HTTP exception 429 whose message carries the
  remaining seconds, appends exactly one event, of type \<^verbatim>\<open>verify_locked\<close>, leaves the
  \<^verbatim>\<open>auth_state\<close> and \<^verbatim>\<open>users\<close> tables unchanged, and its outcome is the same for every
  vision library, float64 arithmetic, token library and pair of images: extraction and
  distance are not consulted.
\<close>

theorem verify_locked:
  assumes "stored_locked_until d (Some uname) (client_ip client) > t_check clk"
  shows "verify cv np au d clk client uname image1 image2 =
     (Inl (HTTPException 429
        (DStr (''Locked out. Try again in ''
               @ str_int (stored_locked_until d (Some uname) (client_ip client) - t_check clk)
               @ ''s.''))),
      log_event d (t_event clk) ''verify_locked'' (Some uname) (Some (client_ip client))
        [(''fails'', JInt (stored_fails d (Some uname) (client_ip client))),
         (''seconds_remaining'',
          JInt (stored_locked_until d (Some uname) (client_ip client) - t_check clk))])
   \<and> events (snd (verify cv np au d clk client uname image1 image2)) =
       events d @
        [\<lparr>ts = t_event clk, event_type = ''verify_locked'', ev_username = Some uname,
          ev_ip = Some (client_ip client),
          meta_json =
            [(''fails'', JInt (stored_fails d (Some uname) (client_ip client))),
             (''seconds_remaining'',
              JInt (stored_locked_until d (Some uname) (client_ip client) - t_check clk))]\<rparr>]
   \<and> auth_state (snd (verify cv np au d clk client uname image1 image2)) = auth_state d
   \<and> users (snd (verify cv np au d clk client uname image1 image2)) = users d
   \<and> (\<forall>cv' np' au' image1' image2'.
        verify cv' np' au' d clk client uname image1' image2' =
        verify cv np au d clk client uname image1 image2)"
  using assms
  by (simp add: verify_def Let_def check_lockout_stored log_event_frame)


theorem verify_locked_witness:
  "t_check example_clock < stored_locked_until locked_db (Some ''alice'') (client_ip (Some ''10.0.0.1''))
   \<and> fst (verify example_vision exact_numpy example_auth locked_db example_clock (Some ''10.0.0.1'') ''alice''
            [0] [0, 7]) =
       Inl (HTTPException 429 (DStr ''Locked out. Try again in 65s.''))
   \<and> auth_state (snd (verify example_vision exact_numpy example_auth locked_db example_clock
                         (Some ''10.0.0.1'') ''alice'' [0] [0, 7])) = auth_state locked_db"
proof -
  have ip: "client_ip (Some ''10.0.0.1'') = ''10.0.0.1''"
    by (simp add: client_ip_def)
  have l: "t_check example_clock
             < stored_locked_until locked_db (Some ''alice'') (client_ip (Some ''10.0.0.1''))"
    by (simp add: ip locked_db_stored example_clock_def)
  note v = verify_locked [OF l, where cv = example_vision and np = exact_numpy
      and au = example_auth and ?image1.0 = "[0]" and ?image2.0 = "[0, 7]"]
  from v [THEN conjunct1]
  have a: "fst (verify example_vision exact_numpy example_auth locked_db example_clock (Some ''10.0.0.1'')
                  ''alice'' [0] [0, 7]) =
             Inl (HTTPException 429 (DStr ''Locked out. Try again in 65s.''))"
    by (simp add: ip locked_db_stored example_clock_def str_int_65)
  from v [THEN conjunct2, THEN conjunct2, THEN conjunct1]
  show ?thesis
    using l a by simp
qed

text \<open>
  Claim C3. For a request whose key is not locked, whose user is enrolled, whose two
  images are extracted with the quality flag set and exactly one face each, and whose two
  distances to the enrolled vector are \<open>d1\<close> and \<open>d2\<close>: if both distances are at most the
  match threshold and the motion score of the two raw images is at least the motion
  threshold, the response is a success carrying \<^verbatim>\<open>authenticated = True\<close>, the token and the
  role, and the lockout state is the one \<^verbatim>\<open>register_success\<close> leaves; otherwise the
  outcome is the HTTP exception 401 carrying \<^verbatim>\<open>authenticated = False\<close>, and the lockout
  state is the one \<^verbatim>\<open>register_fail\<close> leaves, its fail count one more than before.
\<close>

theorem verify_authenticated_iff:
  assumes unlocked: "\<not> fst (fst (check_lockout d (t_check clk) (Some uname) (client_ip client)))"
    and known: "fst (get_user d uname) = Some urow"
    and ex1: "extract_embedding cv image1 = Inr r1"
    and ex2: "extract_embedding cv image2 = Inr r2"
    and q: "quality_ok r1" "quality_ok r2"
    and fc: "face_count r1 = 1" "face_count r2 = 1"
    and dist1: "cosine_distance np (embedding r1) (ud_embedding urow) = Inr d1"
    and dist2: "cosine_distance np (embedding r2) (ud_embedding urow) = Inr d2"
  shows
    "if d1 \<le> MATCH_THRESHOLD \<and> d2 \<le> MATCH_THRESHOLD
        \<and> motion_heuristic cv np image1 image2 \<ge> MOTION_THRESHOLD
     then (\<exists>resp. fst (verify cv np au d clk client uname image1 image2) = Inr resp
             \<and> map_of resp ''authenticated'' = Some (JBool True)
             \<and> map_of resp ''token'' =
                 Some (JStr (create_access_token au (t_token clk) uname (ud_role urow)))
             \<and> map_of resp ''role'' = Some (JStr (ud_role urow)))
          \<and> auth_state (snd (verify cv np au d clk client uname image1 image2)) =
              auth_state (register_success d (Some uname) (client_ip client))
     else (\<exists>body. fst (verify cv np au d clk client uname image1 image2) =
                     Inl (HTTPException 401 (DDict body))
             \<and> map_of body ''authenticated'' = Some (JBool False))
          \<and> auth_state (snd (verify cv np au d clk client uname image1 image2)) =
              auth_state (snd (register_fail d (t_fail clk) (Some uname) (client_ip client)))
          \<and> stored_fails (snd (verify cv np au d clk client uname image1 image2))
                (Some uname) (client_ip client) =
              stored_fails d (Some uname) (client_ip client) + 1"
proof -
  from known have gu: "get_user d uname = (Some urow, d)"
    using get_user_cases [of d uname] by auto
  from unlocked have nl: "\<not> stored_locked_until d (Some uname) (client_ip client) > t_check clk"
    by (simp add: check_lockout_stored)
  have v: "verify cv np au d clk client uname image1 image2 =
             verify_decision cv np au d clk (client_ip client) uname image1 image2
               (ud_embedding urow) (ud_role urow) r1 r2"
    using nl by (simp add: verify_def Let_def check_lockout_stored gu ex1 ex2 q fc)
  show ?thesis
    unfolding v
    by (simp add: verify_decision_def dist1 dist2 Let_def split_def log_event_frame
          stored_log_event stored_fails_register_fail)
qed


theorem verify_authenticated_iff_witness:
  "\<not> fst (fst (check_lockout alice_db (t_check example_clock) (Some ''alice'')
                 (client_ip (Some ''10.0.0.1''))))
   \<and> fst (get_user alice_db ''alice'') =
        Some \<lparr>ud_username = ''alice'', ud_role = ''user'', ud_embedding = [1, 0]\<rparr>
   \<and> extract_embedding example_vision [0] =
        Inr \<lparr>embedding = [1, 0], face_count = 1, quality_ok = True, quality_reason = None\<rparr>
   \<and> extract_embedding example_vision [0, 7] =
        Inr \<lparr>embedding = [1, 0], face_count = 1, quality_ok = True, quality_reason = None\<rparr>
   \<and> cosine_distance exact_numpy [1, 0] [1, 0] = Inr 0
   \<and> (0 :: real) \<le> MATCH_THRESHOLD
   \<and> motion_heuristic example_vision exact_numpy [0] [0, 7] \<ge> MOTION_THRESHOLD
   \<and> (\<exists>resp. fst (verify example_vision exact_numpy example_auth alice_db example_clock (Some ''10.0.0.1'')
                     ''alice'' [0] [0, 7]) = Inr resp
          \<and> map_of resp ''authenticated'' = Some (JBool True)
          \<and> map_of resp ''role'' = Some (JStr ''user''))"
proof -
  let ?r = "\<lparr>embedding = [1, 0], face_count = 1, quality_ok = True, quality_reason = None\<rparr>"
  let ?u = "\<lparr>ud_username = ''alice'', ud_role = ''user'', ud_embedding = [1, 0]\<rparr>"
  have ip: "client_ip (Some ''10.0.0.1'') = ''10.0.0.1''"
    by (simp add: client_ip_def)
  have unlocked: "\<not> fst (fst (check_lockout alice_db (t_check example_clock) (Some ''alice'')
                 (client_ip (Some ''10.0.0.1''))))"
    by (simp add: ip check_lockout_stored stored_fresh [OF alice_fresh] example_clock_def)
  have known: "fst (get_user alice_db ''alice'') = Some ?u"
    by (simp add: alice_row)
  have thr: "(0 :: real) \<le> MATCH_THRESHOLD" "motion_heuristic example_vision exact_numpy [0] [0, 7] \<ge> MOTION_THRESHOLD"
    by (simp_all add: MATCH_THRESHOLD_def MOTION_THRESHOLD_def example_motion)
  from verify_authenticated_iff [OF unlocked known example_extract(1) example_extract(2),
      where np = exact_numpy and ?d1.0 = 0 and ?d2.0 = 0 and au = example_auth]
    example_distance thr
  have "\<exists>resp. fst (verify example_vision exact_numpy example_auth alice_db example_clock (Some ''10.0.0.1'')
                     ''alice'' [0] [0, 7]) = Inr resp
          \<and> map_of resp ''authenticated'' = Some (JBool True)
          \<and> map_of resp ''role'' = Some (JStr ''user'')"
    by auto
  then show ?thesis
    using unlocked known example_extract example_distance thr by blast
qed



section \<open>Re-enrollment and the users table\<close>

lemma find_upsert_rows_same:
  "find (\<lambda>x. username x = u) rows = Some row \<Longrightarrow>
   find (\<lambda>x. username x = u) (upsert_rows rows now u emb r) = Some (row\<lparr>embedding_json := emb\<rparr>)"
  by (induction rows) (auto simp add: coalesce_def)

lemma find_upsert_rows_new:
  "find (\<lambda>x. username x = u) rows = None \<Longrightarrow>
   find (\<lambda>x. username x = u) (upsert_rows rows now u emb r) =
     Some \<lparr>username = u, embedding_json = emb, role = r, created_at = now\<rparr>"
  by (induction rows) auto

lemma find_upsert_rows_other:
  "v \<noteq> u \<Longrightarrow>
   find (\<lambda>x. username x = v) (upsert_rows rows now u emb r) = find (\<lambda>x. username x = v) rows"
  by (induction rows) auto

lemma enroll_users:
  "users (snd (enroll cv d clk client uname b)) =
     (case fst (enroll cv d clk client uname b) of
        Inl e \<Rightarrow> users d
      | Inr resp \<Rightarrow>
          upsert_rows (users d) (t_upsert clk) uname
            (embedding (projr (extract_embedding cv b))) ''user'')"
  by (simp add: enroll_def Let_def log_event_frame upsert_user_def split: sum.splits exn.splits)

lemma enroll_success:
  "extract_embedding cv b = Inr res \<Longrightarrow> quality_ok res \<Longrightarrow> face_count res = 1 \<Longrightarrow>
   enroll cv d clk client uname b =
     (Inr [(''ok'', JBool True), (''username'', JStr uname), (''role'', JStr ''user'')],
      log_event (upsert_user d (t_upsert clk) uname (embedding res) ''user'') (t_event clk)
        ''enroll_success'' (Some uname) (Some (client_ip client))
        [(''note'', JStr ''user embedding stored'')])"
  by (simp add: enroll_def Let_def)

text \<open>
  Claim C9. When the username is already enrolled, \<^verbatim>\<open>upsert_user\<close> replaces the embedding of
  its row and keeps the role the row had, whatever role is supplied, and so does a
  successful \<^verbatim>\<open>enroll\<close>, which supplies \<^verbatim>\<open>"user"\<close>; the rows of other usernames are as they were.
  An \<^verbatim>\<open>enroll\<close> that is rejected leaves the \<^verbatim>\<open>users\<close> table unchanged, \<^verbatim>\<open>set_user_role\<close> changes
  no username, embedding or creation time, and every other operation (the state and event
  functions, the reads, the three lockout functions, \<^verbatim>\<open>verify\<close>, \<^verbatim>\<open>search\<close> and \<^verbatim>\<open>admin_events\<close>)
  leaves the \<^verbatim>\<open>users\<close> table unchanged.
\<close>

theorem reenroll_keeps_role:
  "(find (\<lambda>x. username x = u) (users d) = Some row \<longrightarrow>
      fst (get_user (upsert_user d now u emb r) u) =
        Some \<lparr>ud_username = u, ud_role = role row, ud_embedding = emb\<rparr>
      \<and> find (\<lambda>x. username x = u) (users (upsert_user d now u emb r)) =
          Some (row\<lparr>embedding_json := emb\<rparr>)
      \<and> (extract_embedding cv b = Inr res \<and> quality_ok res \<and> face_count res = 1 \<longrightarrow>
           fst (get_user (snd (enroll cv d clk client u b)) u) =
             Some \<lparr>ud_username = u, ud_role = role row, ud_embedding = embedding res\<rparr>))
   \<and> (\<forall>v. v \<noteq> u \<longrightarrow>
        find (\<lambda>x. username x = v) (users (upsert_user d now u emb r)) =
        find (\<lambda>x. username x = v) (users d))
   \<and> (\<forall>e. fst (enroll cv d clk client u b) = Inl e \<longrightarrow>
        users (snd (enroll cv d clk client u b)) = users d)
   \<and> map username (users (snd (set_user_role d u r))) = map username (users d)
   \<and> map embedding_json (users (snd (set_user_role d u r))) = map embedding_json (users d)
   \<and> map created_at (users (snd (set_user_role d u r))) = map created_at (users d)
   \<and> users (snd (get_state d k dflt)) = users d
   \<and> users (set_state d k v') = users d
   \<and> users (log_event d now et eu eip m) = users d
   \<and> users (snd (get_user d u)) = users d
   \<and> users (snd (list_users d)) = users d
   \<and> users (snd (list_events d n)) = users d
   \<and> users (snd (admin_events d n)) = users d
   \<and> users (snd (check_lockout d now uname ip)) = users d
   \<and> users (snd (register_fail d now uname ip)) = users d
   \<and> users (register_success d uname ip) = users d
   \<and> users (snd (verify cv' np au d clk client u b b')) = users d
   \<and> users (snd (search cv'' np d clk client caller b top_k)) = users d"
proof (intro conjI impI allI)
  assume f: "find (\<lambda>x. username x = u) (users d) = Some row"
  then have un: "username row = u"
    by (auto simp add: find_Some_iff)
  show "fst (get_user (upsert_user d now u emb r) u) =
          Some \<lparr>ud_username = u, ud_role = role row, ud_embedding = emb\<rparr>"
    by (simp add: get_user_def upsert_user_def find_upsert_rows_same [OF f] row_dict_def un)
  show "find (\<lambda>x. username x = u) (users (upsert_user d now u emb r)) =
          Some (row\<lparr>embedding_json := emb\<rparr>)"
    by (simp add: upsert_user_def find_upsert_rows_same [OF f])
  assume "extract_embedding cv b = Inr res \<and> quality_ok res \<and> face_count res = 1"
  then show "fst (get_user (snd (enroll cv d clk client u b)) u) =
             Some \<lparr>ud_username = u, ud_role = role row, ud_embedding = embedding res\<rparr>"
    by (simp add: enroll_success get_user_def log_event_frame upsert_user_def
          find_upsert_rows_same [OF f] row_dict_def un)
next
  fix v assume "v \<noteq> u"
  then show "find (\<lambda>x. username x = v) (users (upsert_user d now u emb r)) =
        find (\<lambda>x. username x = v) (users d)"
    by (simp add: upsert_user_def find_upsert_rows_other)
next
  fix e assume "fst (enroll cv d clk client u b) = Inl e"
  then show "users (snd (enroll cv d clk client u b)) = users d"
    by (simp add: enroll_users)
next
  show "users (snd (get_user d u)) = users d"
    using get_user_cases [of d u] by auto
  show "users (snd (verify cv' np au d clk client u b b')) = users d"
    by (rule verify_users)
qed (simp_all add: set_user_role_def Let_def get_state_def set_state_frame log_event_frame
       list_users_def list_events_def admin_events_def check_lockout_stored
       register_fail_result register_success_def search_frame comp_def
       split: option.splits)

lemma admin_db_users:
  "users admin_db =
     [\<lparr>username = ''alice'', embedding_json = [1, 0], role = ''admin'', created_at = 50\<rparr>]"
  by (simp add: admin_db_def alice_db_def set_user_role_def upsert_user_def init_db_def Let_def)

lemma example_extract_other:
  "extract_embedding example_vision [1] =
     Inr \<lparr>embedding = [0, 1], face_count = 1, quality_ok = True, quality_reason = None\<rparr>"
  by (simp add: extract_embedding_def decode_image_bytes_def quality_gate_def example_vision_def)

theorem reenroll_keeps_role_witness:
  "find (\<lambda>x. username x = ''alice'') (users admin_db) =
     Some \<lparr>username = ''alice'', embedding_json = [1, 0], role = ''admin'', created_at = 50\<rparr>
   \<and> extract_embedding example_vision [1] =
       Inr \<lparr>embedding = [0, 1], face_count = 1, quality_ok = True, quality_reason = None\<rparr>
   \<and> fst (get_user
            (snd (enroll example_vision admin_db example_clock (Some ''10.0.0.1'') ''alice'' [1]))
            ''alice'') =
       Some \<lparr>ud_username = ''alice'', ud_role = ''admin'', ud_embedding = [0, 1]\<rparr>
   \<and> fst (get_user (upsert_user admin_db 100 ''alice'' [0, 1] ''user'') ''alice'') =
       Some \<lparr>ud_username = ''alice'', ud_role = ''admin'', ud_embedding = [0, 1]\<rparr>
   \<and> ''bob'' \<noteq> ''alice''
   \<and> find (\<lambda>x. username x = ''bob'')
         (users (upsert_user bob_alice_db 100 ''alice'' [0, 1] ''user'')) =
       Some \<lparr>username = ''bob'', embedding_json = [1, 0], role = ''user'', created_at = 50\<rparr>
   \<and> fst (enroll example_vision admin_db example_clock (Some ''10.0.0.1'') ''alice'' [255]) =
       Inl (HTTPException 400 (DStr ''Invalid image bytes (decode failed).''))
   \<and> users (snd (enroll example_vision admin_db example_clock (Some ''10.0.0.1'') ''alice'' [255])) =
       users admin_db"
proof -
  let ?row = "\<lparr>username = ''alice'', embedding_json = [1, 0], role = ''admin'', created_at = 50\<rparr>"
  let ?res = "\<lparr>embedding = [0, 1], face_count = 1, quality_ok = True, quality_reason = None\<rparr>"
  have f: "find (\<lambda>x. username x = ''alice'') (users admin_db) = Some ?row"
    by (simp add: admin_db_users)
  note inst = reenroll_keeps_role [where d = admin_db and u = "''alice''" and row = ?row
      and cv = example_vision and b = "[1]" and res = ?res and clk = example_clock
      and client = "Some ''10.0.0.1''" and now = 100 and emb = "[0, 1]" and r = "''user''",
      THEN conjunct1, rule_format, OF f]
  from inst [THEN conjunct1]
  have a: "fst (get_user (upsert_user admin_db 100 ''alice'' [0, 1] ''user'') ''alice'') =
       Some \<lparr>ud_username = ''alice'', ud_role = ''admin'', ud_embedding = [0, 1]\<rparr>"
    by simp
  from inst [THEN conjunct2, THEN conjunct2, rule_format] example_extract_other
  have b: "fst (get_user
            (snd (enroll example_vision admin_db example_clock (Some ''10.0.0.1'') ''alice'' [1]))
            ''alice'') =
       Some \<lparr>ud_username = ''alice'', ud_role = ''admin'', ud_embedding = [0, 1]\<rparr>"
    by simp
  have ne: "''bob'' \<noteq> ''alice''"
    by simp
  from reenroll_keeps_role [where d = bob_alice_db and u = "''alice''" and now = 100
      and emb = "[0, 1]" and r = "''user''", THEN conjunct2, THEN conjunct1, rule_format, OF ne]
  have c: "find (\<lambda>x. username x = ''bob'')
             (users (upsert_user bob_alice_db 100 ''alice'' [0, 1] ''user'')) =
           Some \<lparr>username = ''bob'', embedding_json = [1, 0], role = ''user'', created_at = 50\<rparr>"
    by (simp add: bob_alice_db_def upsert_user_def init_db_def)
  have rej: "fst (enroll example_vision admin_db example_clock (Some ''10.0.0.1'') ''alice'' [255]) =
       Inl (HTTPException 400 (DStr ''Invalid image bytes (decode failed).''))"
    by (simp add: enroll_def extract_embedding_def decode_image_bytes_def example_vision_def
          Let_def)
  from reenroll_keeps_role [where d = admin_db and u = "''alice''" and cv = example_vision
      and b = "[255]" and clk = example_clock and client = "Some ''10.0.0.1''",
      THEN conjunct2, THEN conjunct2, THEN conjunct1, rule_format, OF rej]
  have e: "users (snd (enroll example_vision admin_db example_clock (Some ''10.0.0.1'')
                         ''alice'' [255])) = users admin_db" .
  show ?thesis
    using f example_extract_other a b ne c rej e by simp
qed

section \<open>Serial and overlapping calls of \<^verbatim>\<open>register_fail\<close>\<close>

lemma register_fails_append:
  "register_fails d (xs @ ys) uname ip = register_fails (register_fails d xs uname ip) ys uname ip"
  by (induction xs arbitrary: d) simp_all

lemma stored_fails_register_fails:
  "stored_fails (register_fails d tms uname ip) uname ip = stored_fails d uname ip + int (length tms)"
  by (induction tms arbitrary: d) (simp_all add: stored_fails_register_fail)

lemma stored_locked_until_register_fails:
  "stored_locked_until (register_fails d tms uname ip) uname ip =
     (if tms \<noteq> [] \<and> stored_fails d uname ip + int (length tms) \<ge> MAX_FAILS
      then last tms + LOCKOUT_SECONDS else stored_locked_until d uname ip)"
proof (induction tms rule: rev_induct)
  case Nil
  then show ?case by simp
next
  case (snoc t tms)
  show ?case
    using snoc.IH
    by (simp add: register_fails_append stored_locked_until_register_fail
          stored_fails_register_fails)
qed

lemma step_read_write:
  assumes "k < length ps" and "ps ! k = NotStarted"
  shows "step uname ip (step uname ip (d, ps) (k, t)) (k, t') =
           (snd (register_fail d t' uname ip),
            ps[k := Finished (fst (register_fail d t' uname ip))])"
  using assms
  by (simp add: register_fail_def register_fail_read_def get_state_def split_def Let_def
        split: option.splits)

lemma serial_run:
  assumes "k + length tms \<le> length ps"
    and "\<forall>j. k \<le> j \<and> j < k + length tms \<longrightarrow> ps ! j = NotStarted"
  shows "\<exists>ps'. foldl (step uname ip) (d, ps) (serial k tms) = (register_fails d tms uname ip, ps')
           \<and> length ps' = length ps
           \<and> (\<forall>j < length ps. if k \<le> j \<and> j < k + length tms then is_finished (ps' ! j)
                               else ps' ! j = ps ! j)"
  using assms
proof (induction tms arbitrary: d ps k)
  case Nil
  then show ?case by auto
next
  case (Cons t tms)
  let ?d = "snd (register_fail d t uname ip)"
  let ?ps = "ps[k := Finished (fst (register_fail d t uname ip))]"
  from Cons.prems have k: "k < length ps" and ns: "ps ! k = NotStarted"
    by auto
  have two: "step uname ip (step uname ip (d, ps) (k, t)) (k, t) = (?d, ?ps)"
    by (rule step_read_write [OF k ns])
  have len: "Suc k + length tms \<le> length ?ps"
    using Cons.prems by simp
  have rest: "\<forall>j. Suc k \<le> j \<and> j < Suc k + length tms \<longrightarrow> ?ps ! j = NotStarted"
    using Cons.prems by auto
  from Cons.IH [OF len rest, of ?d]
  obtain ps' where run: "foldl (step uname ip) (?d, ?ps) (serial (Suc k) tms) =
                           (register_fails ?d tms uname ip, ps')"
    and l: "length ps' = length ?ps"
    and fin: "\<forall>j < length ?ps. if Suc k \<le> j \<and> j < Suc k + length tms then is_finished (ps' ! j)
                               else ps' ! j = ?ps ! j"
    by blast
  have "foldl (step uname ip) (d, ps) (serial k (t # tms)) =
          (register_fails d (t # tms) uname ip, ps')"
    using two run by simp
  moreover have "length ps' = length ps"
    using l by simp
  moreover have "\<forall>j < length ps. if k \<le> j \<and> j < k + length (t # tms) then is_finished (ps' ! j)
                               else ps' ! j = ps ! j"
  proof (intro allI impI)
    fix j assume j: "j < length ps"
    show "if k \<le> j \<and> j < k + length (t # tms) then is_finished (ps' ! j) else ps' ! j = ps ! j"
    proof (cases "j = k")
      case True
      then show ?thesis using fin j k by (simp add: is_finished_def)
    next
      case False
      then show ?thesis using fin j by (auto split: if_splits)
    qed
  qed
  ultimately show ?case by blast
qed

text \<open>
  Claim C2, as the code has it. When \<open>N\<close> calls of \<^verbatim>\<open>register_fail\<close> on one key run one
  after the other, each reading and writing with no access of another call in between,
  all of them finish, the database is the one of \<open>N\<close> successive calls, the stored fail
  count is the initial count plus \<open>N\<close>, and the stored \<open>locked_until\<close> is the clock reading
  of the last call plus 60 when there was a call and that count is at least \<open>MAX_FAILS\<close>,
  and is unchanged otherwise.
\<close>

theorem serial_register_fail_counts:
  "\<exists>ps. run_calls uname ip d (length tms) (serial 0 tms) = (register_fails d tms uname ip, ps)
      \<and> length ps = length tms
      \<and> (\<forall>p \<in> set ps. is_finished p)
      \<and> stored_fails (register_fails d tms uname ip) uname ip =
          stored_fails d uname ip + int (length tms)
      \<and> stored_locked_until (register_fails d tms uname ip) uname ip =
          (if tms \<noteq> [] \<and> stored_fails d uname ip + int (length tms) \<ge> MAX_FAILS
           then last tms + LOCKOUT_SECONDS else stored_locked_until d uname ip)"
proof -
  have "0 + length tms \<le> length (replicate (length tms) NotStarted)"
    by simp
  moreover have "\<forall>j. 0 \<le> j \<and> j < 0 + length tms \<longrightarrow> replicate (length tms) NotStarted ! j = NotStarted"
    by simp
  ultimately obtain ps where
    run: "foldl (step uname ip) (d, replicate (length tms) NotStarted) (serial 0 tms) =
            (register_fails d tms uname ip, ps)"
    and l: "length ps = length (replicate (length tms) NotStarted)"
    and fin: "\<forall>j < length (replicate (length tms) NotStarted).
                if 0 \<le> j \<and> j < 0 + length tms then is_finished (ps ! j)
                else ps ! j = replicate (length tms) NotStarted ! j"
    using serial_run [of 0 tms "replicate (length tms) NotStarted" uname ip d] by blast
  have "\<forall>p \<in> set ps. is_finished p"
    using fin l by (auto simp add: in_set_conv_nth)
  then show ?thesis
    using run l
    by (simp add: run_calls_def stored_fails_register_fails stored_locked_until_register_fails)
qed

theorem serial_register_fail_counts_witness:
  "stored_fails init_db (Some ''alice'') ''10.0.0.1'' = 0
   \<and> stored_fails
        (fst (run_calls (Some ''alice'') ''10.0.0.1'' init_db 5
                (serial 0 [101, 102, 103, 104, 105])))
        (Some ''alice'') ''10.0.0.1'' = 5
   \<and> stored_locked_until
        (fst (run_calls (Some ''alice'') ''10.0.0.1'' init_db 5
                (serial 0 [101, 102, 103, 104, 105])))
        (Some ''alice'') ''10.0.0.1'' = 165"
proof -
  let ?u = "Some ''alice''" and ?ip = "''10.0.0.1''"
  have fresh: "auth_state init_db (lockout_key ?u ?ip) = None"
    by (simp add: init_db_def)
  from serial_register_fail_counts [of ?u ?ip init_db "[101, 102, 103, 104, 105]"]
  obtain ps where
    run: "run_calls ?u ?ip init_db (length [101, 102, 103, 104, 105 :: int])
            (serial 0 [101, 102, 103, 104, 105]) =
          (register_fails init_db [101, 102, 103, 104, 105] ?u ?ip, ps)"
    and sf: "stored_fails (register_fails init_db [101, 102, 103, 104, 105] ?u ?ip) ?u ?ip =
          stored_fails init_db ?u ?ip + int (length [101, 102, 103, 104, 105 :: int])"
    and sl: "stored_locked_until (register_fails init_db [101, 102, 103, 104, 105] ?u ?ip) ?u ?ip =
          (if [101, 102, 103, 104, 105 :: int] \<noteq> []
              \<and> stored_fails init_db ?u ?ip + int (length [101, 102, 103, 104, 105 :: int])
                  \<ge> MAX_FAILS
           then last [101, 102, 103, 104, 105] + LOCKOUT_SECONDS
           else stored_locked_until init_db ?u ?ip)"
    by blast
  have len: "length [101, 102, 103, 104, 105 :: int] = 5"
    by simp
  have r: "fst (run_calls ?u ?ip init_db 5 (serial 0 [101, 102, 103, 104, 105])) =
           register_fails init_db [101, 102, 103, 104, 105] ?u ?ip"
    using run unfolding len by simp
  have s0: "stored_fails init_db ?u ?ip = 0"
    by (rule stored_fresh(1) [OF fresh])
  show ?thesis
    unfolding r using sf sl s0 by (simp add: MAX_FAILS_def LOCKOUT_SECONDS_def)
qed

text \<open>
  Claim C2, as stated, fails. Two calls on a key with no stored state, the second reading
  before the first has written: both finish, both return a fail count of 1, and the stored
  fail count is 1, not 2.
\<close>

theorem overlapping_register_fail_loses_update:
  "run_calls (Some ''alice'') ''10.0.0.1'' init_db 2 [(0, 100), (1, 100), (0, 101), (1, 101)] =
     (set_state init_db (lockout_key (Some ''alice'') ''10.0.0.1'')
        [(''fails'', 1), (''locked_until'', 0)],
      [Finished (1, False, 0), Finished (1, False, 0)])
   \<and> stored_fails init_db (Some ''alice'') ''10.0.0.1'' = 0
   \<and> stored_fails
        (fst (run_calls (Some ''alice'') ''10.0.0.1'' init_db 2
                [(0, 100), (1, 100), (0, 101), (1, 101)]))
        (Some ''alice'') ''10.0.0.1'' = 1"
  by (simp add: run_calls_def register_fail_read_def register_fail_write_def get_state_def
      set_state_def init_db_def default_state_def dict_get_def MAX_FAILS_def stored_fails_def
      numeral_2_eq_2)

section \<open>Search\<close>

lemma cosine_distance_equal_length:
  "length a = length b \<Longrightarrow>
   cosine_distance np a b =
     Inr (if fmul np (linalg_norm np a) (linalg_norm np b) = 0 then 1
          else fsub np 1 (fdiv np (np_dot np a b)
                 (fmul np (linalg_norm np a) (linalg_norm np b))))"
  by (simp add: cosine_distance_def dot_def Let_def)

lemma candidates_equal_length:
  "\<forall>u \<in> set us. length (ud_embedding u) = length probe \<Longrightarrow>
   \<exists>cs. candidates np probe us = Inr cs
      \<and> length cs = length us
      \<and> map c_username cs = map ud_username us
      \<and> map c_role cs = map ud_role us
      \<and> (\<forall>i < length us. cosine_distance np probe (ud_embedding (us ! i)) = Inr (c_distance (cs ! i)))"
proof (induction us)
  case Nil
  then show ?case by simp
next
  case (Cons u us)
  then obtain cs where cs: "candidates np probe us = Inr cs" "length cs = length us"
      "map c_username cs = map ud_username us" "map c_role cs = map ud_role us"
      "\<forall>i < length us. cosine_distance np probe (ud_embedding (us ! i)) = Inr (c_distance (cs ! i))"
    by auto
  from Cons.prems have "length probe = length (ud_embedding u)"
    by simp
  then obtain x where x: "cosine_distance np probe (ud_embedding u) = Inr x"
    using cosine_distance_equal_length by blast
  let ?c = "\<lparr>c_username = ud_username u, c_role = ud_role u, c_distance = x\<rparr>"
  have "candidates np probe (u # us) = Inr (?c # cs)"
    by (simp add: x cs)
  moreover have "\<forall>i < length (u # us).
      cosine_distance np probe (ud_embedding ((u # us) ! i)) = Inr (c_distance ((?c # cs) ! i))"
    using x cs(5) by (auto simp add: nth_Cons split: nat.splits)
  ultimately show ?case
    using cs by auto
qed

lemma search_past_gates:
  assumes "extract_embedding cv b = Inr r" and "quality_ok r" and "face_count r = 1"
    and "candidates np (embedding r) (map row_dict (users d)) = Inr cs"
  shows "fst (search cv np d clk client caller b top_k) =
           Inr \<lparr>results = take (nat (max 1 (min top_k 25))) (sort_key c_distance cs),
                match_threshold = MATCH_THRESHOLD\<rparr>"
  using assms by (simp add: search_def Let_def list_users_def)

text \<open>
  Claim C5, as the code has it. For a probe that passes the gates and enrolled embeddings
  of the probe's length, \<^verbatim>\<open>search\<close> computes one candidate per enrolled user, in listing
  order, with the distance of the probe to that user's embedding; the results are the
  first \<open>max 1 (min top_k 25)\<close> candidates of the stable sort by distance, so they are
  ascending in distance, their number is the minimum of \<open>max 1 (min top_k 25)\<close> and the number
  of enrolled users, and candidates at the same distance stay in listing order. Usernames
  are not compared.
\<close>

theorem search_ranking:
  assumes ex: "extract_embedding cv b = Inr r"
    and q: "quality_ok r"
    and fc: "face_count r = 1"
    and dim: "\<forall>u \<in> set (users d). length (embedding_json u) = length (embedding r)"
  shows "\<exists>cs resp.
      candidates np (embedding r) (fst (list_users d)) = Inr cs
    \<and> length cs = length (users d)
    \<and> map c_username cs = map username (users d)
    \<and> map c_role cs = map role (users d)
    \<and> (\<forall>i < length (users d).
          cosine_distance np (embedding r) (embedding_json (users d ! i)) = Inr (c_distance (cs ! i)))
    \<and> fst (search cv np d clk client caller b top_k) = Inr resp
    \<and> results resp = take (nat (max 1 (min top_k 25))) (sort_key c_distance cs)
    \<and> sorted (map c_distance (results resp))
    \<and> length (results resp) = min (nat (max 1 (min top_k 25))) (length (users d))
    \<and> (\<forall>x. filter (\<lambda>c. c_distance c = x) (sort_key c_distance cs) =
            filter (\<lambda>c. c_distance c = x) cs)
    \<and> (\<forall>x. prefix (filter (\<lambda>c. c_distance c = x) (results resp))
                   (filter (\<lambda>c. c_distance c = x) cs))"
proof -
  let ?us = "map row_dict (users d)"
  let ?k = "nat (max 1 (min top_k 25))"
  from dim have "\<forall>u \<in> set ?us. length (ud_embedding u) = length (embedding r)"
    by (simp add: row_dict_def)
  from candidates_equal_length [OF this]
  obtain cs where cs: "candidates np (embedding r) ?us = Inr cs" "length cs = length ?us"
      "map c_username cs = map ud_username ?us" "map c_role cs = map ud_role ?us"
      "\<forall>i < length ?us. cosine_distance np (embedding r) (ud_embedding (?us ! i)) =
                         Inr (c_distance (cs ! i))"
    by blast
  let ?resp = "\<lparr>results = take ?k (sort_key c_distance cs), match_threshold = MATCH_THRESHOLD\<rparr>"
  have s: "fst (search cv np d clk client caller b top_k) = Inr ?resp"
    by (rule search_past_gates [OF ex q fc cs(1)])
  have "sorted (take ?k (map c_distance (sort_key c_distance cs)))"
    by (intro sorted_wrt_take sorted_sort_key)
  then have sorted: "sorted (map c_distance (results ?resp))"
    by (simp only: take_map search_response.simps)
  have len: "length (results ?resp) = min ?k (length (users d))"
    using cs(2) by (auto simp add: min_def)
  have stable: "\<forall>x. filter (\<lambda>c. c_distance c = x) (sort_key c_distance cs) =
                    filter (\<lambda>c. c_distance c = x) cs"
    by (simp add: sort_key_stable)
  have pre: "\<forall>x. prefix (filter (\<lambda>c. c_distance c = x) (results ?resp))
                   (filter (\<lambda>c. c_distance c = x) cs)"
  proof
    fix x
    have "prefix (filter (\<lambda>c. c_distance c = x) (take ?k (sort_key c_distance cs)))
            (filter (\<lambda>c. c_distance c = x) (sort_key c_distance cs))"
      by (intro filter_mono_prefix take_is_prefix)
    then show "prefix (filter (\<lambda>c. c_distance c = x) (results ?resp))
                 (filter (\<lambda>c. c_distance c = x) cs)"
      by (simp add: sort_key_stable)
  qed
  have names: "map c_username cs = map username (users d)" "map c_role cs = map role (users d)"
    using cs(3,4) by (simp_all add: row_dict_def comp_def)
  have dists: "\<forall>i < length (users d).
          cosine_distance np (embedding r) (embedding_json (users d ! i)) = Inr (c_distance (cs ! i))"
    using cs(5) by (simp add: row_dict_def)
  have c: "candidates np (embedding r) (fst (list_users d)) = Inr cs"
    using cs(1) by (simp add: list_users_def)
  have l: "length cs = length (users d)"
    using cs(2) by simp
  have res: "results ?resp = take ?k (sort_key c_distance cs)"
    by simp
  from c l names dists s res sorted len stable pre show ?thesis
    by blast
qed

lemma ten_db_users: "length (users ten_db) = 10"
  by (simp add: ten_db_def)

lemma ten_db_dim: "\<forall>u \<in> set (users ten_db). length (embedding_json u) = length [1, 0 :: real]"
  by (simp add: ten_db_def)

theorem search_ranking_witness:
  "extract_embedding example_vision [0] =
     Inr \<lparr>embedding = [1, 0], face_count = 1, quality_ok = True, quality_reason = None\<rparr>
   \<and> list_all (\<lambda>u. length (embedding_json u) = 2) (users ten_db)
   \<and> length (users ten_db) = 10
   \<and> (\<exists>resp. fst (search example_vision exact_numpy ten_db example_clock (Some ''10.0.0.1'') ''carol'' [0] 0)
               = Inr resp \<and> length (results resp) = 1)
   \<and> (\<exists>resp. fst (search example_vision exact_numpy ten_db example_clock (Some ''10.0.0.1'') ''carol'' [0] 3)
               = Inr resp \<and> length (results resp) = 3)
   \<and> (\<exists>resp. fst (search example_vision exact_numpy ten_db example_clock (Some ''10.0.0.1'') ''carol'' [0] 100)
               = Inr resp \<and> length (results resp) = 10)"
proof -
  let ?r = "\<lparr>embedding = [1, 0], face_count = 1, quality_ok = True, quality_reason = None\<rparr>"
  have q: "quality_ok ?r" and fc: "face_count ?r = 1"
    by simp_all
  have dim: "\<forall>u \<in> set (users ten_db). length (embedding_json u) = length (embedding ?r)"
    using ten_db_dim by simp
  note inst = search_ranking [OF example_extract(1) q fc dim, where np = exact_numpy
      and clk = example_clock and client = "Some ''10.0.0.1''" and caller = "''carol''"]
  from inst [where top_k = 0]
  have a: "\<exists>resp. fst (search example_vision exact_numpy ten_db example_clock (Some ''10.0.0.1'') ''carol'' [0] 0)
               = Inr resp \<and> length (results resp) = 1"
    by (auto simp add: ten_db_users)
  from inst [where top_k = 3]
  have b: "\<exists>resp. fst (search example_vision exact_numpy ten_db example_clock (Some ''10.0.0.1'') ''carol'' [0] 3)
               = Inr resp \<and> length (results resp) = 3"
    by (auto simp add: ten_db_users)
  from inst [where top_k = 100]
  have c: "\<exists>resp. fst (search example_vision exact_numpy ten_db example_clock (Some ''10.0.0.1'') ''carol'' [0] 100)
               = Inr resp \<and> length (results resp) = 10"
    by (auto simp add: ten_db_users)
  have la: "list_all (\<lambda>u. length (embedding_json u) = 2) (users ten_db)"
    using ten_db_dim by (simp add: list_all_iff)
  show ?thesis
    using example_extract(1) la ten_db_users a b c by blast
qed

lemma bob_alice_users:
  "users bob_alice_db =
     [\<lparr>username = ''bob'', embedding_json = [1, 0], role = ''user'', created_at = 50\<rparr>,
      \<lparr>username = ''alice'', embedding_json = [1, 0], role = ''user'', created_at = 60\<rparr>]"
  by (simp add: bob_alice_db_def upsert_user_def init_db_def)

text \<open>
  Claim C5, as stated, fails. Bob and Alice are at the same distance from the probe; the
  results list Bob, enrolled first, before Alice, although \<open>''bob''\<close> is not below
  \<open>''alice''\<close> in lexical order.
\<close>

theorem search_tie_not_by_username:
  "fst (search example_vision exact_numpy bob_alice_db example_clock (Some ''10.0.0.1'') ''carol'' [0] 5) =
     Inr \<lparr>results =
            [\<lparr>c_username = ''bob'', c_role = ''user'', c_distance = 0\<rparr>,
             \<lparr>c_username = ''alice'', c_role = ''user'', c_distance = 0\<rparr>],
          match_threshold = MATCH_THRESHOLD\<rparr>
   \<and> \<not> ''bob'' \<le> ''alice''"
proof -
  have c: "candidates exact_numpy [1, 0] (map row_dict (users bob_alice_db)) =
             Inr [\<lparr>c_username = ''bob'', c_role = ''user'', c_distance = 0\<rparr>,
                  \<lparr>c_username = ''alice'', c_role = ''user'', c_distance = 0\<rparr>]"
    by (simp add: bob_alice_users row_dict_def example_distance)
  have "fst (search example_vision exact_numpy bob_alice_db example_clock (Some ''10.0.0.1'') ''carol'' [0] 5) =
     Inr \<lparr>results =
            [\<lparr>c_username = ''bob'', c_role = ''user'', c_distance = 0\<rparr>,
             \<lparr>c_username = ''alice'', c_role = ''user'', c_distance = 0\<rparr>],
          match_threshold = MATCH_THRESHOLD\<rparr>"
    using c by (simp add: search_past_gates [OF example_extract(1)])
  moreover have "\<not> ''bob'' \<le> ''alice''"
    by (simp add: less_eq_char_def)
  ultimately show ?thesis by simp
qed

end
